theory Spec2Isabelle
  imports Main
begin

section \<open>Python values shared by both programs\<close>

text \<open>
  Python strings are modelled as \<^typ>\<open>string\<close>: one \<^typ>\<open>char\<close> stands for one code point
  below 256, so \<open>len\<close>, slicing and \<open>join\<close> are \<^const>\<open>length\<close>, \<^const>\<open>take\<close>,
  \<^const>\<open>drop\<close> and concatenation. A value that came out of \<open>json.loads\<close> (or goes into
  \<open>json.dumps\<close>) is a \<open>json\<close>; a float is carried as the text \<open>float.__repr__\<close> prints.
  A \<open>dict\<close> is an association list read with \<^const>\<open>map_of\<close>.
\<close>

datatype json =
    JNull
  | JBool bool
  | JInt int
  | JReal string
  | JStr string
  | JArr "json list"
  | JObj "(string \<times> json) list"

datatype py_error = TypeError | AttributeError | OSError

text \<open>\<open>d.get(k, default)\<close>.\<close>

definition dict_get :: "(string \<times> 'v) list \<Rightarrow> string \<Rightarrow> 'v \<Rightarrow> 'v" where
  "dict_get d k dflt = (case map_of d k of None \<Rightarrow> dflt | Some v \<Rightarrow> v)"

text \<open>\<open>sep.join(xs)\<close>.\<close>

fun join :: "string \<Rightarrow> string list \<Rightarrow> string" where
  "join sep [] = []"
| "join sep [x] = x"
| "join sep (x # y # ys) = x @ sep @ join sep (y # ys)"

text \<open>\<open>str.isspace\<close> on one code point below 256, \<open>s.strip()\<close> and \<open>s.split("\n")\<close>.\<close>

definition py_isspace :: "char \<Rightarrow> bool" where
  "py_isspace c =
     (let n = (of_char c :: nat)
      in (9 \<le> n \<and> n \<le> 13) \<or> (28 \<le> n \<and> n \<le> 32) \<or> n = 133 \<or> n = 160)"

definition strip :: "string \<Rightarrow> string" where
  "strip s = rev (dropWhile py_isspace (rev (dropWhile py_isspace s)))"

fun split_nl :: "string \<Rightarrow> string list" where
  "split_nl [] = [[]]"
| "split_nl (c # cs) =
     (if c = CHR 0x0A then [] # split_nl cs
      else (case split_nl cs of [] \<Rightarrow> [[c]] | l # ls \<Rightarrow> (c # l) # ls))"

text \<open>\<open>sub in s\<close> on two strings.\<close>

fun starts_with :: "string \<Rightarrow> string \<Rightarrow> bool" where
  "starts_with [] s = True"
| "starts_with (p # ps) [] = False"
| "starts_with (p # ps) (c # cs) = (p = c \<and> starts_with ps cs)"

fun str_contains :: "string \<Rightarrow> string \<Rightarrow> bool" where
  "str_contains sub [] = (sub = [])"
| "str_contains sub (c # cs) = (starts_with sub (c # cs) \<or> str_contains sub cs)"

subsection \<open>\<open>json.dumps\<close> with the default separators\<close>

definition hex_digit :: "nat \<Rightarrow> char" where
  "hex_digit n = (if n < 10 then char_of (48 + n) else char_of (87 + n))"

fun dec_nat :: "nat \<Rightarrow> string" where
  "dec_nat n = (if n < 10 then [char_of (48 + n)] else dec_nat (n div 10) @ [char_of (48 + n mod 10)])"

definition dec_int :: "int \<Rightarrow> string" where
  "dec_int i = (if i < 0 then CHR ''-'' # dec_nat (nat (- i)) else dec_nat (nat i))"

text \<open>
  One character of a string literal. With \<open>ensure_ascii\<close> everything outside the range
  space to tilde is escaped; without it only the control characters, the quote and the
  backslash are.
\<close>

definition escape_char :: "bool \<Rightarrow> char \<Rightarrow> string" where
  \<open>escape_char ensure_ascii c =
     (let n = (of_char c :: nat) in
      if c = CHR ''"'' then [CHR 0x5C, CHR ''"'']
      else if c = CHR 0x5C then [CHR 0x5C, CHR 0x5C]
      else if n = 10 then [CHR 0x5C, CHR ''n'']
      else if n = 13 then [CHR 0x5C, CHR ''r'']
      else if n = 9 then [CHR 0x5C, CHR ''t'']
      else if n = 8 then [CHR 0x5C, CHR ''b'']
      else if n = 12 then [CHR 0x5C, CHR ''f'']
      else if n < 32 \<or> (ensure_ascii \<and> 126 < n)
        then [CHR 0x5C, CHR ''u'', CHR ''0'', CHR ''0'', hex_digit (n div 16), hex_digit (n mod 16)]
      else [c])\<close>

definition dumps_str :: "bool \<Rightarrow> string \<Rightarrow> string" where
  \<open>dumps_str ensure_ascii s = [CHR ''"''] @ concat (map (escape_char ensure_ascii) s) @ [CHR ''"'']\<close>

fun json_dumps :: "bool \<Rightarrow> json \<Rightarrow> string"
  and dumps_elems :: "bool \<Rightarrow> json list \<Rightarrow> string"
  and dumps_members :: "bool \<Rightarrow> (string \<times> json) list \<Rightarrow> string" where
  "json_dumps a JNull = ''null''"
| "json_dumps a (JBool b) = (if b then ''true'' else ''false'')"
| "json_dumps a (JInt i) = dec_int i"
| "json_dumps a (JReal r) = r"
| "json_dumps a (JStr s) = dumps_str a s"
| "json_dumps a (JArr xs) = ''['' @ dumps_elems a xs @ '']''"
| "json_dumps a (JObj kvs) = ''{'' @ dumps_members a kvs @ ''}''"
| "dumps_elems a [] = []"
| "dumps_elems a [x] = json_dumps a x"
| "dumps_elems a (x # y # ys) = json_dumps a x @ '', '' @ dumps_elems a (y # ys)"
| "dumps_members a [] = []"
| "dumps_members a [(k, v)] = dumps_str a k @ '': '' @ json_dumps a v"
| "dumps_members a ((k, v) # kv # kvs) =
     dumps_str a k @ '': '' @ json_dumps a v @ '', '' @ dumps_members a (kv # kvs)"

section \<open>agent.py: the tool call relay\<close>

text \<open>
  What \<open>subprocess.run\<close> did: it ran to completion (standard output and standard error
  as text), it ran into the timeout, or the process could not be started.
\<close>

datatype proc_outcome = Completed string string | TimeoutExpired | SpawnFailed

definition init_req :: json where
  "init_req = JObj [(''jsonrpc'', JStr ''2.0''), (''method'', JStr ''initialize''),
                    (''params'', JObj []), (''id'', JInt 0)]"

definition call_req :: "string \<Rightarrow> (string \<times> json) list \<Rightarrow> json" where
  "call_req name args =
     JObj [(''jsonrpc'', JStr ''2.0''), (''method'', JStr ''tools/call''),
           (''params'', JObj [(''name'', JStr name), (''arguments'', JObj args)]),
           (''id'', JInt 1)]"

definition rpc_payload :: "string \<Rightarrow> (string \<times> json) list \<Rightarrow> string" where
  "rpc_payload name args =
     json_dumps True init_req @ [CHR 0x0A] @ json_dumps True (call_req name args) @ [CHR 0x0A]"

text \<open>\<open>[l for l in proc.stdout.strip().split("\n") if l.strip()]\<close>\<close>

definition output_lines :: "string \<Rightarrow> string list" where
  "output_lines out = filter (\<lambda>l. strip l \<noteq> []) (split_nl (strip out))"

text \<open>
  \<open>"error" in resp\<close>: a key test on a dict, a membership test on a list, a substring test
  on a string, a \<open>TypeError\<close> on anything else.
\<close>

fun has_error_field :: "json \<Rightarrow> py_error + bool" where
  "has_error_field (JObj kvs) = Inr (map_of kvs ''error'' \<noteq> None)"
| "has_error_field (JArr xs) = Inr (JStr ''error'' \<in> set xs)"
| "has_error_field (JStr s) = Inr (str_contains ''error'' s)"
| "has_error_field _ = Inl TypeError"

text \<open>\<open>x.get(k, default)\<close> on a parsed value: only a dict has \<open>get\<close>.\<close>

fun json_get :: "json \<Rightarrow> string \<Rightarrow> json \<Rightarrow> py_error + json" where
  "json_get (JObj kvs) k dflt = Inr (dict_get kvs k dflt)"
| "json_get _ k dflt = Inl AttributeError"

text \<open>What \<open>for item in content\<close> iterates over.\<close>

fun json_iter :: "json \<Rightarrow> py_error + json list" where
  "json_iter (JArr xs) = Inr xs"
| "json_iter (JObj kvs) = Inr (map (\<lambda>kv. JStr (fst kv)) kvs)"
| "json_iter (JStr s) = Inr (map (\<lambda>c. JStr [c]) s)"
| "json_iter _ = Inl TypeError"

text \<open>
  \<open>[item.get("text", "") for item in content if item.get("type") == "text"]\<close>:
  the first item that is not a dict raises.
\<close>

fun text_items :: "json list \<Rightarrow> py_error + json list" where
  "text_items [] = Inr []"
| "text_items (JObj kvs # rest) =
     (case text_items rest of
        Inl e \<Rightarrow> Inl e
      | Inr ts \<Rightarrow>
          if dict_get kvs ''type'' JNull = JStr ''text''
          then Inr (dict_get kvs ''text'' (JStr '''') # ts) else Inr ts)"
| "text_items (_ # rest) = Inl AttributeError"

text \<open>\<open>"\n".join(texts)\<close>: every element has to be a string.\<close>

fun str_items :: "json list \<Rightarrow> py_error + string list" where
  "str_items [] = Inr []"
| "str_items (JStr s # rest) = (case str_items rest of Inl e \<Rightarrow> Inl e | Inr ss \<Rightarrow> Inr (s # ss))"
| "str_items (_ # rest) = Inl TypeError"

text \<open>Lines 227 to 231: the text of a response that carries no error.\<close>

definition extract_text :: "json \<Rightarrow> py_error + string" where
  "extract_text resp =
     (case json_get resp ''result'' (JObj []) of
        Inl e \<Rightarrow> Inl e
      | Inr result \<Rightarrow>
          (case json_get result ''content'' (JArr []) of
             Inl e \<Rightarrow> Inl e
           | Inr content \<Rightarrow>
               (case json_iter content of
                  Inl e \<Rightarrow> Inl e
                | Inr items \<Rightarrow>
                    (case text_items items of
                       Inl e \<Rightarrow> Inl e
                     | Inr texts \<Rightarrow>
                         if texts \<noteq> []
                         then (case str_items texts of
                                 Inl e \<Rightarrow> Inl e
                               | Inr ss \<Rightarrow> Inr (join [CHR 0x0A] ss))
                         else Inr (json_dumps True result)))))"

text \<open>
  \<open>run_tool\<close>. The subprocess is the function \<open>spawn\<close> of the text written to its input;
  \<open>loads\<close> is \<open>json.loads\<close>, \<open>None\<close> where it raises \<open>JSONDecodeError\<close>.
\<close>

definition run_tool ::
  "(string \<Rightarrow> proc_outcome) \<Rightarrow> (string \<Rightarrow> json option) \<Rightarrow> string \<Rightarrow> (string \<times> json) list
     \<Rightarrow> py_error + string" where
  "run_tool spawn loads name args =
     (case spawn (rpc_payload name args) of
        TimeoutExpired \<Rightarrow>
          Inr (json_dumps True (JObj [(''error'', JStr ''Tool call timed out after 60s'')]))
      | SpawnFailed \<Rightarrow> Inl OSError
      | Completed out err \<Rightarrow>
          (let lines = output_lines out in
           if length lines < 2
           then Inr (json_dumps True (JObj [(''error'', JStr ''No response from dashmcp''),
                                             (''stderr'', JStr (take 500 err))]))
           else
             (case loads (lines ! 1) of
                None \<Rightarrow>
                  Inr (json_dumps True (JObj [(''error'', JStr ''Invalid JSON from dashmcp''),
                                               (''raw'', JStr (take 500 (lines ! 1)))]))
              | Some resp \<Rightarrow>
                  (case has_error_field resp of
                     Inl e \<Rightarrow> Inl e
                   | Inr True \<Rightarrow>
                       (case resp of
                          JObj kvs \<Rightarrow> Inr (json_dumps True (dict_get kvs ''error'' JNull))
                        | _ \<Rightarrow> Inl TypeError)
                   | Inr False \<Rightarrow> extract_text resp))))"

text \<open>
  \<open>format_tool_call\<close>: the call as it is printed, the arguments cut to 120 characters.
\<close>

definition format_tool_call :: "string \<Rightarrow> (string \<times> json) list \<Rightarrow> string" where
  "format_tool_call name args =
     (let args_str = json_dumps False (JObj args);
          args_str = (if length args_str > 120 then take 117 args_str @ ''...'' else args_str)
      in ''  [TOOL] '' @ name @ ''('' @ args_str @ '')'')"

section \<open>agent.py: one turn of the chat loop\<close>

text \<open>
  A content block of an API response: a text block (the only kind with a \<open>text\<close>
  attribute), a tool invocation (\<open>type == "tool_use"\<close>, with id, name and input), or any
  other block.
\<close>

datatype cblock = CText string | CToolUse string string "(string \<times> json) list" | COther

record api_response =
  stop_reason :: string
  content :: "cblock list"

text \<open>\<open>client.messages.create\<close> returns a response or raises \<open>anthropic.APIError\<close>.\<close>

datatype api_result = ApiOk api_response | ApiError string

record tool_result =
  tool_use_id :: string
  result_text :: string

datatype turn_content =
    UserText string
  | Blocks "cblock list"
  | ToolResults "tool_result list"

datatype turn = Turn string turn_content

text \<open>
  The state of the loop: the \<open>messages\<close> list, the lines printed so far, and the number
  of subprocesses started so far (every tool call starts a new one, so the subprocess of
  the \<open>n\<close>-th call is \<open>spawn n\<close>).
\<close>

record chat_state =
  history :: "turn list"
  printed :: "string list"
  spawned :: nat

definition is_tool_use :: "cblock \<Rightarrow> bool" where
  "is_tool_use b = (case b of CToolUse _ _ _ \<Rightarrow> True | _ \<Rightarrow> False)"

text \<open>\<open>[b.text for b in response.content if hasattr(b, "text")]\<close>\<close>

fun text_parts :: "cblock list \<Rightarrow> string list" where
  "text_parts [] = []"
| "text_parts (CText t # bs) = t # text_parts bs"
| "text_parts (_ # bs) = text_parts bs"

text \<open>
  Lines 306 to 314: every tool block is printed and run, in order. An exception of
  \<open>run_tool\<close> is not caught by the chat loop and ends it.
\<close>

fun run_blocks ::
  "(nat \<Rightarrow> string \<Rightarrow> proc_outcome) \<Rightarrow> (string \<Rightarrow> json option) \<Rightarrow> cblock list \<Rightarrow> tool_result list
     \<Rightarrow> chat_state \<Rightarrow> py_error + (tool_result list \<times> chat_state)" where
  "run_blocks spawn loads [] results st = Inr (results, st)"
| "run_blocks spawn loads (CToolUse tid name args # bs) results st =
     (let st1 = st\<lparr>printed := printed st @ [format_tool_call name args]\<rparr>;
          st2 = st1\<lparr>spawned := Suc (spawned st1)\<rparr>
      in case run_tool (spawn (spawned st1)) loads name args of
           Inl e \<Rightarrow> Inl e
         | Inr result \<Rightarrow>
             run_blocks spawn loads bs
               (results @ [\<lparr>tool_use_id = tid, result_text = result\<rparr>]) st2)"
| "run_blocks spawn loads (_ # bs) results st = run_blocks spawn loads bs results st"

text \<open>
  Lines 302 to 328. The API is the list of the outcomes of its next calls; \<open>None\<close> says
  that the list ended while the loop was still asking.
\<close>

fun tool_loop ::
  "(nat \<Rightarrow> string \<Rightarrow> proc_outcome) \<Rightarrow> (string \<Rightarrow> json option) \<Rightarrow> api_result list \<Rightarrow> api_response
     \<Rightarrow> chat_state \<Rightarrow> (py_error + (api_response \<times> chat_state)) option" where
  "tool_loop spawn loads api response st =
     (if stop_reason response = ''tool_use'' then
        (let tool_blocks = filter is_tool_use (content response);
             st1 = st\<lparr>history := history st @ [Turn ''assistant'' (Blocks (content response))]\<rparr>
         in case run_blocks spawn loads tool_blocks [] st1 of
              Inl e \<Rightarrow> Some (Inl e)
            | Inr (tool_results, st2) \<Rightarrow>
                (let st3 = st2\<lparr>history := history st2 @ [Turn ''user'' (ToolResults tool_results)]\<rparr>
                 in case api of
                      [] \<Rightarrow> None
                    | ApiError e # _ \<Rightarrow>
                        Some (Inr (response, st3\<lparr>printed := printed st3 @ [''  [ERROR] API: '' @ e]\<rparr>))
                    | ApiOk response' # api' \<Rightarrow> tool_loop spawn loads api' response' st3))
      else Some (Inr (response, st)))"

text \<open>Lines 330 to 334.\<close>

definition print_text :: "api_response \<Rightarrow> chat_state \<Rightarrow> chat_state" where
  "print_text response st =
     (let parts = text_parts (content response)
      in if parts \<noteq> []
         then st\<lparr>history := history st @ [Turn ''assistant'' (Blocks (content response))],
                 printed := printed st @ [[CHR 0x0A] @ join [CHR 0x0A] parts @ [CHR 0x0A]]\<rparr>
         else st)"

text \<open>
  Lines 285 to 334: the body of the loop for an input line that is neither blank nor a
  quit word.
\<close>

definition chat_turn ::
  "(nat \<Rightarrow> string \<Rightarrow> proc_outcome) \<Rightarrow> (string \<Rightarrow> json option) \<Rightarrow> api_result list \<Rightarrow> string
     \<Rightarrow> chat_state \<Rightarrow> (py_error + chat_state) option" where
  "chat_turn spawn loads api user_input st =
     (let st1 = st\<lparr>history := history st @ [Turn ''user'' (UserText user_input)]\<rparr>
      in case api of
           [] \<Rightarrow> None
         | ApiError e # _ \<Rightarrow>
             Some (Inr (st1\<lparr>printed := printed st1 @ [''  [ERROR] API: '' @ e],
                             history := butlast (history st1)\<rparr>))
         | ApiOk response # api' \<Rightarrow>
             (case tool_loop spawn loads api' response st1 of
                None \<Rightarrow> None
              | Some (Inl e) \<Rightarrow> Some (Inl e)
              | Some (Inr (response', st2)) \<Rightarrow> Some (Inr (print_text response' st2))))"

section \<open>agent_bridge.py: the prompt builder\<close>

text \<open>A message is the dict \<open>{"role": ..., "content": ...}\<close> with text values.\<close>

type_synonym chat_message = "(string \<times> string) list"

text \<open>Lines 54 to 62: one round of the loop over the messages.\<close>

definition add_message ::
  "string \<times> (string \<times> string) list \<Rightarrow> chat_message \<Rightarrow> string \<times> (string \<times> string) list" where
  "add_message acc msg =
     (let system = fst acc; hist = snd acc;
          role = dict_get msg ''role'' [];
          content = dict_get msg ''content'' []
      in if role = ''system'' then (content, hist)
         else if role = ''user'' then (system, hist @ [(''User'', content)])
         else if role = ''assistant'' \<and> content \<noteq> [] then (system, hist @ [(''Assistant'', content)])
         else (system, hist))"

definition scan_messages :: "chat_message list \<Rightarrow> string \<times> (string \<times> string) list" where
  "scan_messages msgs = foldl add_message ([], []) msgs"

definition history_of :: "chat_message list \<Rightarrow> (string \<times> string) list" where
  "history_of msgs = snd (scan_messages msgs)"

definition render_turn :: "string \<times> string \<Rightarrow> string" where
  "render_turn t = fst t @ '': '' @ snd t"

definition build_prompt :: "chat_message list \<Rightarrow> string \<times> string" where
  "build_prompt msgs =
     (let system = fst (scan_messages msgs); hist = snd (scan_messages msgs)
      in if hist = [] then (system, [])
         else if fst (last hist) \<noteq> ''User'' then (system, snd (last hist))
         else if length hist = 1 then (system, snd (last hist))
         else (system,
               ''<conversation_history>'' @ [CHR 0x0A]
               @ join [CHR 0x0A, CHR 0x0A] (map render_turn (butlast hist))
               @ [CHR 0x0A] @ ''</conversation_history>'' @ [CHR 0x0A, CHR 0x0A]
               @ snd (last hist)))"

section \<open>agent_bridge.py: the streaming delta emitter\<close>

text \<open>
  What is written to standard output, in order: \<open>Delta i d\<close> is \<open>emit(d)\<close> called in the
  round of the block loop with index \<open>i\<close> (the index is kept for the statements below,
  it is not written), \<open>Event d\<close> is \<open>emit(d)\<close> called elsewhere, \<open>Sentinel\<close> is the
  write of \<open>data: [DONE]\<close>.
\<close>

datatype written = Delta nat json | Event json | Sentinel

definition emit_text :: "json \<Rightarrow> string" where
  "emit_text d = ''data: '' @ json_dumps False d @ [CHR 0x0A]"

fun render :: "written \<Rightarrow> string" where
  "render (Delta i d) = emit_text d"
| "render (Event d) = emit_text d"
| "render Sentinel = ''data: [DONE]'' @ [CHR 0x0A]"

definition stdout_of :: "written list \<Rightarrow> string" where
  "stdout_of ws = concat (map render ws)"

definition emit_done :: "int \<Rightarrow> int \<Rightarrow> written list" where
  "emit_done prompt_tok comp_tok =
     (if prompt_tok \<noteq> 0 \<or> comp_tok \<noteq> 0
      then [Event (JObj [(''choices'', JArr []),
                         (''usage'', JObj [(''prompt_tokens'', JInt prompt_tok),
                                           (''completion_tokens'', JInt comp_tok),
                                           (''total_tokens'', JInt (prompt_tok + comp_tok))])])]
      else [])
     @ [Sentinel]"

text \<open>
  The blocks of an assistant message. The input of a tool block is a dict or, should the
  SDK deliver anything else, a value of which the code reads only its \<open>str()\<close> text.
\<close>

datatype tool_input = DictInput "(string \<times> json) list" | OtherInput string

datatype block =
    TextBlock string
  | ThinkingBlock string
  | ToolUseBlock string string tool_input
  | OtherBlock

datatype message =
    AssistantMessage "block list"
  | ResultMessage "(string \<times> int) list option"
  | OtherMessage

text \<open>
  The stream \<open>query\<close> returns: each step delivers a message or raises an exception (an
  instance of \<open>Exception\<close>, with its \<open>str()\<close> text); the end of the list is the end of the
  stream.
\<close>

datatype step = Yield message | Raise string

record tracking =
  text_lens :: "nat \<rightharpoonup> nat"
  think_lens :: "nat \<rightharpoonup> nat"
  seen_tools :: "nat set"
  was_assistant :: bool

definition lens_get :: "(nat \<rightharpoonup> nat) \<Rightarrow> nat \<Rightarrow> nat" where
  "lens_get m i = (case m i of None \<Rightarrow> 0 | Some n \<Rightarrow> n)"

definition delta :: "(string \<times> json) list \<Rightarrow> json" where
  "delta d = JObj [(''choices'', JArr [JObj [(''delta'', JObj d)]])]"

definition tool_arguments :: "tool_input \<Rightarrow> string" where
  "tool_arguments inp = (case inp of DictInput d \<Rightarrow> json_dumps True (JObj d) | OtherInput s \<Rightarrow> s)"

definition tool_call :: "string \<Rightarrow> string \<Rightarrow> tool_input \<Rightarrow> json" where
  "tool_call tid name inp =
     JObj [(''index'', JInt 0), (''id'', JStr tid), (''type'', JStr ''function''),
           (''function'', JObj [(''name'', JStr name),
                                (''arguments'', JStr (tool_arguments inp))])]"

text \<open>Lines 117 to 141: one round of the block loop, at index \<open>i\<close>.\<close>

fun on_block :: "nat \<Rightarrow> block \<Rightarrow> tracking \<Rightarrow> tracking \<times> written list" where
  "on_block i (TextBlock text) st =
     (let prev = lens_get (text_lens st) i
      in if length text > prev
         then (st\<lparr>text_lens := (text_lens st)(i \<mapsto> length text)\<rparr>,
               [Delta i (delta [(''content'', JStr (drop prev text))])])
         else (st, []))"
| "on_block i (ThinkingBlock thinking) st =
     (let prev = lens_get (think_lens st) i
      in if length thinking > prev
         then (st\<lparr>think_lens := (think_lens st)(i \<mapsto> length thinking)\<rparr>,
               [Delta i (delta [(''reasoning'', JStr (drop prev thinking))])])
         else (st, []))"
| "on_block i (ToolUseBlock tid name inp) st =
     (if i \<notin> seen_tools st
      then (st\<lparr>seen_tools := insert i (seen_tools st)\<rparr>,
            [Delta i (delta [(''tool_calls'', JArr [tool_call tid name inp])])])
      else (st, []))"
| "on_block i OtherBlock st = (st, [])"

text \<open>\<open>for i, block in enumerate(message.content)\<close>, from index \<open>i\<close> on.\<close>

fun on_blocks :: "nat \<Rightarrow> block list \<Rightarrow> tracking \<Rightarrow> tracking \<times> written list" where
  "on_blocks i [] st = (st, [])"
| "on_blocks i (b # bs) st =
     (let r1 = on_block i b st; r2 = on_blocks (Suc i) bs (fst r1)
      in (fst r2, snd r1 @ snd r2))"

text \<open>Lines 110 to 141: an assistant message.\<close>

definition on_assistant :: "block list \<Rightarrow> tracking \<Rightarrow> tracking \<times> written list" where
  "on_assistant blocks st =
     (let st1 = (if \<not> was_assistant st
                 then st\<lparr>text_lens := Map.empty, think_lens := Map.empty, seen_tools := {}\<rparr>
                 else st)
      in on_blocks 0 blocks (st1\<lparr>was_assistant := True\<rparr>))"

text \<open>Lines 144 to 150: the token counts of a result message.\<close>

definition usage_tokens :: "(string \<times> int) list option \<Rightarrow> int \<times> int" where
  "usage_tokens usage =
     (case usage of
        None \<Rightarrow> (0, 0)
      | Some u \<Rightarrow> if u \<noteq> [] then (dict_get u ''input_tokens'' 0, dict_get u ''output_tokens'' 0)
                  else (0, 0))"

text \<open>
  Lines 107 to 155: the loop over the stream, the handler of an exception and the final
  \<open>emit_done()\<close>. A result message returns from \<open>main\<close>; nothing after it is read.
\<close>

fun consume :: "tracking \<Rightarrow> step list \<Rightarrow> written list" where
  "consume st [] = emit_done 0 0"
| "consume st (Raise e # rest) =
     [Event (delta [(''content'', JStr ([CHR 0x0A] @ ''SDK Error: '' @ e @ [CHR 0x0A]))])]
     @ emit_done 0 0"
| "consume st (Yield (AssistantMessage blocks) # rest) =
     (let r = on_assistant blocks st in snd r @ consume (fst r) rest)"
| "consume st (Yield (ResultMessage usage) # rest) =
     emit_done (fst (usage_tokens usage)) (snd (usage_tokens usage))"
| "consume st (Yield OtherMessage # rest) = consume (st\<lparr>was_assistant := False\<rparr>) rest"

text \<open>
  The payload is whatever \<open>json.load\<close> returned, so \<open>main\<close> works on a \<open>json\<close>. The lines
  before the \<open>try\<close> can raise on it, and nothing is written then.
\<close>

text \<open>The truth value Python gives a parsed value (\<open>if x\<close>, \<open>x or None\<close>, \<open>not x\<close>).\<close>

fun py_truthy :: "json \<Rightarrow> bool" where
  "py_truthy JNull = False"
| "py_truthy (JBool b) = b"
| "py_truthy (JInt i) = (i \<noteq> 0)"
| "py_truthy (JReal r) = (r \<noteq> ''0.0'' \<and> r \<noteq> ''-0.0'')"
| "py_truthy (JStr s) = (s \<noteq> [])"
| "py_truthy (JArr xs) = (xs \<noteq> [])"
| "py_truthy (JObj kvs) = (kvs \<noteq> [])"

text \<open>
  \<open>x in v\<close> for a text \<open>x\<close>: a key test on a dict, a membership test on a list, a
  substring test on a string, a \<open>TypeError\<close> on anything else.
\<close>

fun py_in :: "string \<Rightarrow> json \<Rightarrow> py_error + bool" where
  "py_in x (JObj kvs) = Inr (map_of kvs x \<noteq> None)"
| "py_in x (JArr xs) = Inr (JStr x \<in> set xs)"
| "py_in x (JStr s) = Inr (str_contains x s)"
| "py_in x _ = Inl TypeError"

text \<open>\<open>model.split("/", 1)[1]\<close>: the text after the first slash.\<close>

definition strip_provider :: "string \<Rightarrow> string" where
  "strip_provider m = tl (dropWhile (\<lambda>c. c \<noteq> CHR ''/'') m)"

text \<open>
  Lines 84 and 85. Only a string has \<open>split\<close>; a list or a dict that holds \<open>"/"\<close> raises
  an \<open>AttributeError\<close>, one that does not is left as it is.
\<close>

definition resolve_model :: "json \<Rightarrow> py_error + json" where
  "resolve_model m =
     (case py_in ''/'' m of
        Inl e \<Rightarrow> Inl e
      | Inr False \<Rightarrow> Inr m
      | Inr True \<Rightarrow> (case m of JStr s \<Rightarrow> Inr (JStr (strip_provider s)) | _ \<Rightarrow> Inl AttributeError))"

text \<open>
  \<open>build_prompt\<close> on the parsed value itself, where a message need not be a dict and a
  role or a content may be any value. In an f-string a text stands for itself; for any
  other value the text is what Python's \<open>str\<close> gives, the parameter \<open>py_str\<close>.
\<close>

fun format_value :: "(json \<Rightarrow> string) \<Rightarrow> json \<Rightarrow> string" where
  "format_value py_str (JStr s) = s"
| "format_value py_str v = py_str v"

fun add_message_json ::
  "json \<times> (string \<times> json) list \<Rightarrow> json \<Rightarrow> py_error + (json \<times> (string \<times> json) list)" where
  "add_message_json acc (JObj msg) =
     (let system = fst acc; hist = snd acc;
          role = dict_get msg ''role'' (JStr []);
          content = dict_get msg ''content'' (JStr [])
      in if role = JStr ''system'' then Inr (content, hist)
         else if role = JStr ''user'' then Inr (system, hist @ [(''User'', content)])
         else if role = JStr ''assistant'' \<and> py_truthy content
           then Inr (system, hist @ [(''Assistant'', content)])
         else Inr (system, hist))"
| "add_message_json acc _ = Inl AttributeError"

fun scan_json ::
  "json \<times> (string \<times> json) list \<Rightarrow> json list \<Rightarrow> py_error + (json \<times> (string \<times> json) list)" where
  "scan_json acc [] = Inr acc"
| "scan_json acc (msg # msgs) =
     (case add_message_json acc msg of Inl e \<Rightarrow> Inl e | Inr acc' \<Rightarrow> scan_json acc' msgs)"

definition render_turn_json :: "(json \<Rightarrow> string) \<Rightarrow> string \<times> json \<Rightarrow> string" where
  "render_turn_json py_str t = fst t @ '': '' @ format_value py_str (snd t)"

definition build_prompt_json :: "(json \<Rightarrow> string) \<Rightarrow> json \<Rightarrow> py_error + (json \<times> json)" where
  "build_prompt_json py_str msgs =
     (case json_iter msgs of
        Inl e \<Rightarrow> Inl e
      | Inr ms \<Rightarrow>
          (case scan_json (JStr [], []) ms of
             Inl e \<Rightarrow> Inl e
           | Inr acc \<Rightarrow>
               (let system = fst acc; hist = snd acc
                in if hist = [] then Inr (system, JStr [])
                   else if fst (last hist) \<noteq> ''User'' then Inr (system, snd (last hist))
                   else if length hist = 1 then Inr (system, snd (last hist))
                   else Inr (system,
                          JStr (''<conversation_history>'' @ [CHR 0x0A]
                                @ join [CHR 0x0A, CHR 0x0A] (map (render_turn_json py_str) (butlast hist))
                                @ [CHR 0x0A] @ ''</conversation_history>'' @ [CHR 0x0A, CHR 0x0A]
                                @ format_value py_str (snd (last hist)))))))"

record options =
  system_prompt :: "json option"
  opt_model :: json
  include_partial_messages :: bool
  cwd :: string

definition initial_tracking :: tracking where
  "initial_tracking =
     \<lparr>text_lens = Map.empty, think_lens = Map.empty, seen_tools = {}, was_assistant = False\<rparr>"

text \<open>
  \<open>main\<close>, after \<open>json.load\<close>. The SDK is the function \<open>query\<close> from the prompt and the
  options to the stream. \<open>Inl\<close> is an exception that leaves \<open>main\<close>; all of them are
  raised in lines 83 to 87, before the first write.
\<close>

definition main ::
  "(json \<Rightarrow> string) \<Rightarrow> (json \<Rightarrow> options \<Rightarrow> step list) \<Rightarrow> json \<Rightarrow> py_error + written list" where
  "main py_str query payload =
     (case json_get payload ''model'' (JStr ''claude-opus-4-6'') of
        Inl e \<Rightarrow> Inl e
      | Inr model0 \<Rightarrow>
          (case resolve_model model0 of
             Inl e \<Rightarrow> Inl e
           | Inr model \<Rightarrow>
               (case json_get payload ''messages'' (JArr []) of
                  Inl e \<Rightarrow> Inl e
                | Inr msgs \<Rightarrow>
                    (case build_prompt_json py_str msgs of
                       Inl e \<Rightarrow> Inl e
                     | Inr sp \<Rightarrow>
                         (let system = fst sp; prompt = snd sp
                          in if \<not> py_truthy prompt
                             then Inr ([Event (delta [(''content'', JStr ''Error: No user message'')])]
                                       @ emit_done 0 0)
                             else Inr (consume initial_tracking
                                    (query prompt
                                       \<lparr>system_prompt = (if py_truthy system then Some system else None),
                                        opt_model = model, include_partial_messages = True,
                                        cwd = ''/dash''\<rparr>)))))))"

text \<open>What an invocation has written: nothing when it raised.\<close>

definition writes :: "py_error + written list \<Rightarrow> written list" where
  "writes r = (case r of Inl e \<Rightarrow> [] | Inr ws \<Rightarrow> ws)"

text \<open>A run of consecutive assistant messages, each given by its blocks.\<close>

fun assistant_run :: "block list list \<Rightarrow> tracking \<Rightarrow> tracking \<times> written list" where
  "assistant_run [] st = (st, [])"
| "assistant_run (blocks # rest) st =
     (let r1 = on_assistant blocks st; r2 = assistant_run rest (fst r1)
      in (fst r2, snd r1 @ snd r2))"

section \<open>Notions the properties are stated with\<close>

text \<open>
  The text of one item of a \<open>content\<close> array as the specification words it: an item of
  type \<open>text\<close> contributes its \<open>text\<close> field (the empty text when it has none).
\<close>

fun item_text :: "json \<Rightarrow> string option" where
  "item_text (JObj kvs) =
     (if dict_get kvs ''type'' JNull = JStr ''text''
      then (case dict_get kvs ''text'' (JStr []) of JStr s \<Rightarrow> Some s | _ \<Rightarrow> None)
      else None)"
| "item_text _ = None"

definition spec_text_fields :: "json list \<Rightarrow> string list" where
  "spec_text_fields items = List.map_filter item_text items"

text \<open>
  An item of the shape the tool protocol gives it: an object, whose \<open>text\<close> is a string
  when its type is \<open>text\<close>.
\<close>

definition well_formed_item :: "json \<Rightarrow> bool" where
  "well_formed_item it =
     (case it of
        JObj kvs \<Rightarrow>
          (if dict_get kvs ''type'' JNull = JStr ''text''
           then (case dict_get kvs ''text'' (JStr []) of JStr s \<Rightarrow> True | _ \<Rightarrow> False)
           else True)
      | _ \<Rightarrow> False)"

text \<open>The messages that become a turn of the history, and the turn each becomes.\<close>

definition is_turn :: "chat_message \<Rightarrow> bool" where
  "is_turn msg =
     (dict_get msg ''role'' [] = ''user'' \<or>
      (dict_get msg ''role'' [] = ''assistant'' \<and> dict_get msg ''content'' [] \<noteq> []))"

definition turn_of :: "chat_message \<Rightarrow> string \<times> string" where
  "turn_of msg =
     (if dict_get msg ''role'' [] = ''user'' then ''User'' else ''Assistant'',
      dict_get msg ''content'' [])"

text \<open>
  Reading an emitted event: a field of an object, the entries of \<open>tool_calls\<close> in the
  deltas of its choices, and the event a write carries.
\<close>

definition obj_field :: "json \<Rightarrow> string \<Rightarrow> json option" where
  "obj_field j k = (case j of JObj kvs \<Rightarrow> map_of kvs k | _ \<Rightarrow> None)"

definition choice_tool_calls :: "json \<Rightarrow> json list" where
  "choice_tool_calls c =
     (case obj_field c ''delta'' of
        None \<Rightarrow> []
      | Some dl \<Rightarrow> (case obj_field dl ''tool_calls'' of Some (JArr tcs) \<Rightarrow> tcs | _ \<Rightarrow> []))"

definition tool_calls_in :: "json \<Rightarrow> json list" where
  "tool_calls_in d =
     (case obj_field d ''choices'' of
        Some (JArr cs) \<Rightarrow> concat (map choice_tool_calls cs)
      | _ \<Rightarrow> [])"

fun emitted :: "written \<Rightarrow> json option" where
  "emitted (Delta i d) = Some d"
| "emitted (Event d) = Some d"
| "emitted Sentinel = None"

text \<open>
  A write of the round of the block loop with index \<open>i\<close>, and one that announces a tool
  call there.
\<close>

fun at_index :: "nat \<Rightarrow> written \<Rightarrow> bool" where
  "at_index i (Delta j d) = (i = j)"
| "at_index i _ = False"

definition tool_delta_at :: "nat \<Rightarrow> written \<Rightarrow> bool" where
  "tool_delta_at i w = (at_index i w \<and> (case emitted w of None \<Rightarrow> False | Some d \<Rightarrow> tool_calls_in d \<noteq> []))"

text \<open>
  The tool block at index \<open>i\<close> of a message, and the first one at that index in a run of
  messages.
\<close>

definition tool_at :: "nat \<Rightarrow> block list \<Rightarrow> (string \<times> string \<times> tool_input) option" where
  "tool_at i blocks =
     (if i < length blocks
      then (case blocks ! i of ToolUseBlock tid name inp \<Rightarrow> Some (tid, name, inp) | _ \<Rightarrow> None)
      else None)"

fun first_tool_at :: "nat \<Rightarrow> block list list \<Rightarrow> (string \<times> string \<times> tool_input) option" where
  "first_tool_at i [] = None"
| "first_tool_at i (blocks # rest) =
     (case tool_at i blocks of Some t \<Rightarrow> Some t | None \<Rightarrow> first_tool_at i rest)"

text \<open>The write that announces a tool block, made at index \<open>i\<close>.\<close>

definition tool_delta :: "nat \<Rightarrow> string \<times> string \<times> tool_input \<Rightarrow> written" where
  "tool_delta i t =
     Delta i (delta [(''tool_calls'', JArr [tool_call (fst t) (fst (snd t)) (snd (snd t))])])"

text \<open>Every tool call the write carries has the value 0 in its \<open>index\<close> field.\<close>

definition index_zero :: "written \<Rightarrow> bool" where
  "index_zero w =
     (case emitted w of
        None \<Rightarrow> True
      | Some d \<Rightarrow> list_all (\<lambda>tc. obj_field tc ''index'' = Some (JInt 0)) (tool_calls_in d))"

text \<open>What a block at index \<open>i\<close> needs of the tracking state to emit nothing.\<close>

fun covered :: "nat \<Rightarrow> block \<Rightarrow> tracking \<Rightarrow> bool" where
  "covered i (TextBlock t) st = (length t \<le> lens_get (text_lens st) i)"
| "covered i (ThinkingBlock t) st = (length t \<le> lens_get (think_lens st) i)"
| "covered i (ToolUseBlock tid name inp) st = (i \<in> seen_tools st)"
| "covered i OtherBlock st = True"

text \<open>
  A payload of the documented shape: an object whose \<open>model\<close>, when present, is a text
  and whose \<open>messages\<close>, when present, are an array of objects.
\<close>

definition is_object :: "json \<Rightarrow> bool" where
  "is_object v = (case v of JObj kvs \<Rightarrow> True | _ \<Rightarrow> False)"

definition payload_ok :: "json \<Rightarrow> bool" where
  "payload_ok p =
     (case p of
        JObj kvs \<Rightarrow>
          (case dict_get kvs ''model'' (JStr ''claude-opus-4-6'') of JStr m \<Rightarrow> True | _ \<Rightarrow> False)
          \<and> (case dict_get kvs ''messages'' (JArr []) of
                JArr ms \<Rightarrow> list_all is_object ms
              | _ \<Rightarrow> False)
      | _ \<Rightarrow> False)"

text \<open>A message with text values as the parsed value it comes from.\<close>

definition msg_json :: "chat_message \<Rightarrow> json" where
  "msg_json msg = JObj (map (\<lambda>kv. (fst kv, JStr (snd kv))) msg)"

text \<open>
  A subprocess and a parser for the examples: the subprocess prints two lines, and the
  second parses to a result with the one text item \<open>ok\<close>.
\<close>

definition demo_spawn :: "nat \<Rightarrow> string \<Rightarrow> proc_outcome" where
  "demo_spawn n p = Completed ''x\<newline>y'' []"

definition demo_loads :: "string \<Rightarrow> json option" where
  "demo_loads s = Some (JObj [(''result'', JObj [(''content'',
                     JArr [JObj [(''type'', JStr ''text''), (''text'', JStr ''ok'')]])])])"

section \<open>Properties\<close>

subsection \<open>The tool call relay\<close>

text \<open>
  C3: when the subprocess exceeds its 60 second timeout, \<open>run_tool\<close> returns exactly the
  JSON text \<open>{"error": "Tool call timed out after 60s"}\<close>, for every tool name and every
  argument mapping, and raises nothing.
\<close>

theorem run_tool_timeout:
  assumes "spawn (rpc_payload name args) = TimeoutExpired"
  shows \<open>run_tool spawn loads name args = Inr ''{"error": "Tool call timed out after 60s"}''\<close>
  using assms by (simp add: run_tool_def dumps_str_def escape_char_def)

theorem run_tool_timeout_witness:
  \<open>run_tool (\<lambda>p. TimeoutExpired) (\<lambda>s. None) ''tasks'' [] =
     Inr ''{"error": "Tool call timed out after 60s"}''\<close>
  using run_tool_timeout [of "\<lambda>p. TimeoutExpired" "''tasks''" "[]" "\<lambda>s. None"] by simp

lemma text_items_well_formed:
  "list_all well_formed_item items \<Longrightarrow> text_items items = Inr (map JStr (spec_text_fields items))"
proof (induction items)
  case Nil
  show ?case by (simp add: spec_text_fields_def List.map_filter_simps)
next
  case (Cons it items)
  then show ?case
    by (cases it)
       (auto simp: spec_text_fields_def List.map_filter_simps well_formed_item_def
             split: json.splits if_splits)
qed

lemma str_items_map: "str_items (map JStr ss) = Inr ss"
  by (induction ss) auto

text \<open>
  C4, as the code has it: for a \<open>tools/call\<close> response of the protocol's shape (the
  second output line parses to an object without an \<open>error\<close> field, its \<open>result\<close>, an
  empty object when absent, is an object, the \<open>content\<close> of the result, an empty array
  when absent, is an array of objects, and an item of type \<open>text\<close> has a string as its
  \<open>text\<close>, the empty one when absent), \<open>run_tool\<close> returns the \<open>text\<close> fields of the
  items of type \<open>text\<close>, joined by newlines; when there is no such item it returns the
  JSON serialization of the whole result object.
\<close>

theorem run_tool_success:
  assumes "spawn (rpc_payload name args) = Completed out err"
    and "2 \<le> length (output_lines out)"
    and "loads (output_lines out ! 1) = Some (JObj resp)"
    and "map_of resp ''error'' = None"
    and "dict_get resp ''result'' (JObj []) = JObj result"
    and "dict_get result ''content'' (JArr []) = JArr items"
    and "list_all well_formed_item items"
  shows "run_tool spawn loads name args =
           Inr (if spec_text_fields items = [] then json_dumps True (JObj result)
                else join [CHR 0x0A] (spec_text_fields items))"
  using assms
  by (simp add: run_tool_def extract_text_def text_items_well_formed str_items_map
           del: json_dumps.simps)

theorem run_tool_success_witness:
  "run_tool (\<lambda>p. Completed ''{}\<newline>{}'' [])
            (\<lambda>s. Some (JObj [(''result'',
                     JObj [(''content'',
                       JArr [JObj [(''type'', JStr ''text''), (''text'', JStr ''one'')],
                             JObj [(''type'', JStr ''image'')],
                             JObj [(''type'', JStr ''text''), (''text'', JStr ''two'')]])])]))
            ''tasks'' []
   = Inr ''one\<newline>two''"
  using run_tool_success [of "\<lambda>p. Completed ''{}\<newline>{}'' []" "''tasks''" "[]" "''{}\<newline>{}''" "[]"
          "\<lambda>s. Some (JObj [(''result'',
                     JObj [(''content'',
                       JArr [JObj [(''type'', JStr ''text''), (''text'', JStr ''one'')],
                             JObj [(''type'', JStr ''image'')],
                             JObj [(''type'', JStr ''text''), (''text'', JStr ''two'')]])])])"
          "[(''result'',
                     JObj [(''content'',
                       JArr [JObj [(''type'', JStr ''text''), (''text'', JStr ''one'')],
                             JObj [(''type'', JStr ''image'')],
                             JObj [(''type'', JStr ''text''), (''text'', JStr ''two'')]])])]"
          "[(''content'',
                       JArr [JObj [(''type'', JStr ''text''), (''text'', JStr ''one'')],
                             JObj [(''type'', JStr ''image'')],
                             JObj [(''type'', JStr ''text''), (''text'', JStr ''two'')]])]"
          "[JObj [(''type'', JStr ''text''), (''text'', JStr ''one'')],
                             JObj [(''type'', JStr ''image'')],
                             JObj [(''type'', JStr ''text''), (''text'', JStr ''two'')]]"]
  by (simp add: output_lines_def strip_def py_isspace_def dict_get_def well_formed_item_def
                spec_text_fields_def List.map_filter_simps)

text \<open>
  The claim as the specification words it fails: the second line \<open>{"result": null}\<close>
  parses and has no \<open>error\<close> field, and \<open>run_tool\<close> raises on it instead of returning
  the serialization of the result.
\<close>

theorem run_tool_raises_on_null_result:
  "has_error_field (JObj [(''result'', JNull)]) = Inr False
   \<and> run_tool (\<lambda>p. Completed ''{}\<newline>{}'' []) (\<lambda>s. Some (JObj [(''result'', JNull)]))
        ''tasks'' []
     = Inl AttributeError"
  by (simp add: run_tool_def output_lines_def strip_def py_isspace_def extract_text_def
                dict_get_def)

text \<open>
  So does a second line that parses to something other than an object, here an empty
  array.
\<close>

lemma run_tool_not_an_object:
  assumes "spawn (rpc_payload name args) = Completed out err"
    and "2 \<le> length (output_lines out)"
    and "loads (output_lines out ! 1) = Some (JArr [])"
  shows "run_tool spawn loads name args = Inl AttributeError"
  using assms by (simp add: run_tool_def extract_text_def)

subsection \<open>The prompt builder\<close>

lemma foldl_add_message_snd:
  "snd (foldl add_message acc msgs) = snd acc @ map turn_of (filter is_turn msgs)"
proof (induction msgs arbitrary: acc)
  case Nil
  show ?case by simp
next
  case (Cons m msgs)
  have "snd (add_message acc m) = snd acc @ (if is_turn m then [turn_of m] else [])"
    by (simp add: add_message_def is_turn_def turn_of_def Let_def)
  then show ?case by (simp add: Cons.IH)
qed

lemma history_of_filter: "history_of msgs = map turn_of (filter is_turn msgs)"
  by (simp add: history_of_def scan_messages_def foldl_add_message_snd)

lemma history_of_snoc:
  "history_of (msgs @ [m]) = history_of msgs @ (if is_turn m then [turn_of m] else [])"
  by (simp add: history_of_filter)

text \<open>
  C2: \<open>build_prompt\<close> on a single user message \<open>hello\<close> and no system message returns
  \<open>("", "hello")\<close>; when the last turn of the history is not a user turn, the content of
  that turn is the prompt (so a list that ends with an assistant message of non-empty
  content has that content as its prompt); and on user \<open>a\<close>, assistant \<open>b\<close>, user \<open>c\<close> the
  prompt is the history block with the lines \<open>User: a\<close> and \<open>Assistant: b\<close>, followed by
  \<open>c\<close>.
\<close>

theorem build_prompt_cases:
  "build_prompt [[(''role'', ''user''), (''content'', ''hello'')]] = ([], ''hello'')
   \<and> (history_of msgs \<noteq> [] \<and> fst (last (history_of msgs)) \<noteq> ''User''
        \<longrightarrow> snd (build_prompt msgs) = snd (last (history_of msgs)))
   \<and> (dict_get m ''role'' [] = ''assistant'' \<and> dict_get m ''content'' [] \<noteq> []
        \<longrightarrow> snd (build_prompt (msgs @ [m])) = dict_get m ''content'' [])
   \<and> build_prompt [[(''role'', ''user''), (''content'', ''a'')],
                    [(''role'', ''assistant''), (''content'', ''b'')],
                    [(''role'', ''user''), (''content'', ''c'')]]
       = ([], ''<conversation_history>\<newline>User: a\<newline>\<newline>Assistant: b\<newline></conversation_history>\<newline>\<newline>c'')"
proof (intro conjI impI)
  show "build_prompt [[(''role'', ''user''), (''content'', ''hello'')]] = ([], ''hello'')"
    by (simp add: build_prompt_def scan_messages_def add_message_def dict_get_def)
next
  assume "history_of msgs \<noteq> [] \<and> fst (last (history_of msgs)) \<noteq> ''User''"
  then show "snd (build_prompt msgs) = snd (last (history_of msgs))"
    by (simp add: build_prompt_def history_of_def Let_def)
next
  assume a: "dict_get m ''role'' [] = ''assistant'' \<and> dict_get m ''content'' [] \<noteq> []"
  then have "history_of (msgs @ [m]) = history_of msgs @ [(''Assistant'', dict_get m ''content'' [])]"
    by (simp add: history_of_snoc is_turn_def turn_of_def)
  then show "snd (build_prompt (msgs @ [m])) = dict_get m ''content'' []"
    by (simp add: build_prompt_def history_of_def Let_def)
next
  show "build_prompt [[(''role'', ''user''), (''content'', ''a'')],
                    [(''role'', ''assistant''), (''content'', ''b'')],
                    [(''role'', ''user''), (''content'', ''c'')]]
       = ([], ''<conversation_history>\<newline>User: a\<newline>\<newline>Assistant: b\<newline></conversation_history>\<newline>\<newline>c'')"
    by (simp add: build_prompt_def scan_messages_def add_message_def dict_get_def render_turn_def)
qed

theorem build_prompt_cases_witness:
  "history_of [[(''role'', ''user''), (''content'', ''a'')],
               [(''role'', ''assistant''), (''content'', ''b'')]] \<noteq> []
   \<and> fst (last (history_of [[(''role'', ''user''), (''content'', ''a'')],
                             [(''role'', ''assistant''), (''content'', ''b'')]])) \<noteq> ''User''
   \<and> snd (build_prompt [[(''role'', ''user''), (''content'', ''a'')],
                         [(''role'', ''assistant''), (''content'', ''b'')]]) = ''b''"
  using build_prompt_cases [of "[[(''role'', ''user''), (''content'', ''a'')],
                                 [(''role'', ''assistant''), (''content'', ''b'')]]"
                               "[(''role'', ''assistant''), (''content'', ''b'')]"]
  by (simp add: history_of_def scan_messages_def add_message_def dict_get_def)

text \<open>
  C7, as the code has it: the turn history consists, in order, of the messages of role
  \<open>user\<close> and of the messages of role \<open>assistant\<close> whose content is not empty. A system
  message, an assistant message with empty content and a message of any other role
  gives no turn.
\<close>

theorem history_of_turns: "history_of msgs = map turn_of (filter is_turn msgs)"
  by (rule history_of_filter)

theorem history_of_turns_witness:
  "history_of [[(''role'', ''system''), (''content'', ''s'')],
               [(''role'', ''user''), (''content'', ''a'')],
               [(''role'', ''assistant''), (''content'', [])],
               [(''role'', ''tool''), (''content'', ''t'')],
               [(''role'', ''assistant''), (''content'', ''b'')]]
   = [(''User'', ''a''), (''Assistant'', ''b'')]"
  using history_of_turns [of "[[(''role'', ''system''), (''content'', ''s'')],
               [(''role'', ''user''), (''content'', ''a'')],
               [(''role'', ''assistant''), (''content'', [])],
               [(''role'', ''tool''), (''content'', ''t'')],
               [(''role'', ''assistant''), (''content'', ''b'')]]"]
  by (simp add: is_turn_def turn_of_def dict_get_def)

text \<open>
  The claim as the specification words it fails: an assistant message with empty
  content is not a system message, and the history built from it has no turn.
\<close>

theorem history_drops_empty_assistant:
  "dict_get [(''role'', ''assistant''), (''content'', [])] ''role'' [] \<noteq> ''system''
   \<and> history_of [[(''role'', ''assistant''), (''content'', [])]] = []"
  by (simp add: history_of_def scan_messages_def add_message_def dict_get_def)

subsection \<open>The output of the bridge\<close>

lemma consume_ends: "\<exists>pre. consume st steps = pre @ [Sentinel]"
proof (induction st steps rule: consume.induct)
  case (3 st blocks rest)
  then obtain pre where "consume (fst (on_assistant blocks st)) rest = pre @ [Sentinel]"
    by blast
  then show ?case by (simp add: Let_def)
qed (simp_all add: emit_done_def)

lemma main_ends: "main py_str query p = Inr ws \<Longrightarrow> \<exists>pre. ws = pre @ [Sentinel]"
  using consume_ends
  by (auto simp: main_def Let_def emit_done_def split: sum.splits if_splits)

lemma render_ends_newline: "render w \<noteq> [] \<and> last (render w) = CHR 0x0A"
  by (cases w) (simp_all add: emit_text_def)

lemma stdout_of_ends_newline: "stdout_of ws = [] \<or> last (stdout_of ws) = CHR 0x0A"
proof (induction ws rule: rev_induct)
  case Nil
  show ?case by (simp add: stdout_of_def)
next
  case (snoc w ws)
  show ?case using render_ends_newline [of w] by (simp add: stdout_of_def)
qed

lemma scan_json_objects:
  "list_all is_object ms \<Longrightarrow> \<exists>acc'. scan_json acc ms = Inr acc'"
proof (induction ms arbitrary: acc)
  case Nil
  show ?case by simp
next
  case (Cons m ms)
  then obtain kvs where m: "m = JObj kvs"
    by (cases m) (simp_all add: is_object_def)
  have "\<exists>acc1. add_message_json acc m = Inr acc1"
    by (simp add: m Let_def)
  then obtain acc1 where "add_message_json acc m = Inr acc1" by blast
  with Cons show ?case by simp
qed

lemma main_returns: "payload_ok p \<Longrightarrow> \<exists>ws. main py_str query p = Inr ws"
proof -
  assume ok: "payload_ok p"
  then obtain kvs where p: "p = JObj kvs"
    by (cases p) (simp_all add: payload_ok_def)
  from ok p obtain m where m: "dict_get kvs ''model'' (JStr ''claude-opus-4-6'') = JStr m"
    by (auto simp: payload_ok_def split: json.splits)
  from ok p obtain ms where ms: "dict_get kvs ''messages'' (JArr []) = JArr ms"
    and objs: "list_all is_object ms"
    by (auto simp: payload_ok_def split: json.splits)
  obtain acc where "scan_json (JStr [], []) ms = Inr acc"
    using scan_json_objects [OF objs] by blast
  then have "\<exists>sp. build_prompt_json py_str (JArr ms) = Inr sp"
    by (simp add: build_prompt_json_def Let_def)
  then obtain sp where sp: "build_prompt_json py_str (JArr ms) = Inr sp" by blast
  have "\<exists>model. resolve_model (JStr m) = Inr model"
    by (cases "str_contains ''/'' m") (simp_all add: resolve_model_def)
  then obtain model where "resolve_model (JStr m) = Inr model" by blast
  with sp show ?thesis
    by (simp add: main_def p m ms Let_def)
qed

text \<open>
  C1, as the code has it: an invocation that gets through the lines before the \<open>try\<close>
  ends its output with the sentinel, however the stream of the SDK goes (it delivers a
  result message, it raises an exception, or it ends with neither): the last write of
  \<open>main\<close> is the sentinel, and standard output ends with the line \<open>data: [DONE]\<close>, the
  text before it being empty or ending with a newline. Every payload of the documented
  shape gets that far.
\<close>

theorem main_output_ends_with_done:
  "(payload_ok p \<longrightarrow> (\<exists>ws. main py_str query p = Inr ws))
   \<and> (main py_str query p = Inr ws \<longrightarrow>
        ws \<noteq> [] \<and> last ws = Sentinel
        \<and> (\<exists>pre. stdout_of ws = pre @ ''data: [DONE]\<newline>''
                 \<and> (pre = [] \<or> last pre = CHR 0x0A)))"
proof (intro conjI impI)
  assume "payload_ok p"
  then show "\<exists>ws. main py_str query p = Inr ws" by (rule main_returns)
next
  assume r: "main py_str query p = Inr ws"
  then obtain pre where ws: "ws = pre @ [Sentinel]"
    using main_ends by blast
  then show "ws \<noteq> []" by simp
  from ws show "last ws = Sentinel" by simp
  have "stdout_of ws = stdout_of pre @ ''data: [DONE]\<newline>''"
    by (simp add: ws stdout_of_def)
  moreover have "stdout_of pre = [] \<or> last (stdout_of pre) = CHR 0x0A"
    by (rule stdout_of_ends_newline)
  ultimately show "\<exists>pre. stdout_of ws = pre @ ''data: [DONE]\<newline>''
                 \<and> (pre = [] \<or> last pre = CHR 0x0A)"
    by blast
qed

theorem main_output_ends_with_done_witness:
  "main (\<lambda>v. []) (\<lambda>prompt opts. [Yield (AssistantMessage [TextBlock ''hi'']), Raise ''boom''])
        (JObj [(''model'', JStr ''acme/claude-x''),
               (''messages'', JArr [JObj [(''role'', JStr ''user''), (''content'', JStr ''q'')]])])
   = Inr [Delta 0 (delta [(''content'', JStr ''hi'')]),
          Event (delta [(''content'', JStr ''\<newline>SDK Error: boom\<newline>'')]),
          Sentinel]
   \<and> payload_ok (JObj [(''model'', JStr ''acme/claude-x''),
               (''messages'', JArr [JObj [(''role'', JStr ''user''), (''content'', JStr ''q'')]])])"
  using main_output_ends_with_done
          [of "JObj [(''model'', JStr ''acme/claude-x''),
               (''messages'', JArr [JObj [(''role'', JStr ''user''), (''content'', JStr ''q'')]])]"
              "\<lambda>v. []"
              "\<lambda>prompt opts. [Yield (AssistantMessage [TextBlock ''hi'']), Raise ''boom'']"
              "[Delta 0 (delta [(''content'', JStr ''hi'')]),
                Event (delta [(''content'', JStr ''\<newline>SDK Error: boom\<newline>'')]),
                Sentinel]"]
  by (simp add: main_def resolve_model_def build_prompt_json_def dict_get_def payload_ok_def
                is_object_def on_assistant_def initial_tracking_def lens_get_def emit_done_def
                Let_def)

text \<open>
  The claim as the specification words it fails: the payloads \<open>{"model": null}\<close> and
  \<open>{"messages": null}\<close> get past \<open>json.load\<close>, and \<open>main\<close> raises on them before it has
  written anything.
\<close>

theorem main_raises_before_writing:
  "main (\<lambda>v. []) (\<lambda>prompt opts. []) (JObj [(''model'', JNull)]) = Inl TypeError
   \<and> writes (main (\<lambda>v. []) (\<lambda>prompt opts. []) (JObj [(''model'', JNull)])) = []
   \<and> main (\<lambda>v. []) (\<lambda>prompt opts. []) (JObj [(''messages'', JNull)]) = Inl TypeError
   \<and> writes (main (\<lambda>v. []) (\<lambda>prompt opts. []) (JObj [(''messages'', JNull)])) = []"
  by (simp add: main_def resolve_model_def build_prompt_json_def dict_get_def writes_def)

text \<open>
  On messages with text values the prompt builder on parsed values is \<open>build_prompt\<close>.
\<close>

lemma dict_get_msg_json:
  "dict_get (map (\<lambda>kv. (fst kv, JStr (snd kv))) msg) k (JStr []) = JStr (dict_get msg k [])"
  by (induction msg) (auto simp: dict_get_def)

lemma add_message_json_typed:
  "add_message_json (JStr sys, map (\<lambda>t. (fst t, JStr (snd t))) hist) (msg_json msg)
     = Inr (JStr (fst (add_message (sys, hist) msg)),
            map (\<lambda>t. (fst t, JStr (snd t))) (snd (add_message (sys, hist) msg)))"
  by (simp add: msg_json_def add_message_def dict_get_msg_json Let_def)

lemma scan_json_typed:
  "scan_json (JStr sys, map (\<lambda>t. (fst t, JStr (snd t))) hist) (map msg_json msgs)
     = Inr (JStr (fst (foldl add_message (sys, hist) msgs)),
            map (\<lambda>t. (fst t, JStr (snd t))) (snd (foldl add_message (sys, hist) msgs)))"
proof (induction msgs arbitrary: sys hist)
  case Nil
  show ?case by simp
next
  case (Cons m msgs)
  show ?case
    using Cons.IH [of "fst (add_message (sys, hist) m)" "snd (add_message (sys, hist) m)"]
    by (simp add: add_message_json_typed)
qed

lemma build_prompt_json_typed:
  "build_prompt_json py_str (JArr (map msg_json msgs))
     = Inr (JStr (fst (build_prompt msgs)), JStr (snd (build_prompt msgs)))"
proof -
  let ?hist = "snd (scan_messages msgs)"
  have scan: "scan_json (JStr [], []) (map msg_json msgs)
          = Inr (JStr (fst (scan_messages msgs)), map (\<lambda>t. (fst t, JStr (snd t))) ?hist)"
    using scan_json_typed [of "[]" "[]" msgs] by (simp add: scan_messages_def)
  have render: "render_turn_json py_str \<circ> (\<lambda>t. (fst t, JStr (snd t))) = render_turn"
    by (simp add: fun_eq_iff render_turn_json_def render_turn_def)
  show ?thesis
  proof (cases "?hist = []")
    case True
    then show ?thesis by (simp add: build_prompt_json_def build_prompt_def scan Let_def)
  next
    case False
    then show ?thesis
      by (simp add: build_prompt_json_def build_prompt_def scan Let_def last_map map_butlast [symmetric] render)
  qed
qed

subsection \<open>The delta emitter\<close>

lemma tool_calls_in_tool [simp]:
  "tool_calls_in (delta [(''tool_calls'', JArr tcs)]) = tcs"
  by (simp add: tool_calls_in_def choice_tool_calls_def obj_field_def delta_def)

lemma tool_calls_in_content [simp]:
  "tool_calls_in (delta [(''content'', x)]) = []"
  "tool_calls_in (delta [(''reasoning'', x)]) = []"
  by (simp_all add: tool_calls_in_def choice_tool_calls_def obj_field_def delta_def)

lemma on_block_labels: "w \<in> set (snd (on_block i b st)) \<Longrightarrow> at_index j w = (j = i)"
  by (cases b) (auto simp: Let_def split: if_splits)

lemma on_blocks_labels:
  "w \<in> set (snd (on_blocks k bs st)) \<Longrightarrow> \<exists>j d. w = Delta j d \<and> k \<le> j \<and> j < k + length bs"
proof (induction bs arbitrary: k st)
  case Nil
  then show ?case by simp
next
  case (Cons b bs)
  from Cons.prems consider
      (hd) "w \<in> set (snd (on_block k b st))"
    | (tl) "w \<in> set (snd (on_blocks (Suc k) bs (fst (on_block k b st))))"
    by (auto simp: Let_def)
  then show ?case
  proof cases
    case hd
    then show ?thesis by (cases b) (auto simp: Let_def split: if_splits)
  next
    case tl
    from Cons.IH [OF tl] show ?thesis by auto
  qed
qed

lemma on_blocks_below: "j < k \<Longrightarrow> filter (at_index j) (snd (on_blocks k bs st)) = []"
  using on_blocks_labels [of _ k bs st] by (fastforce simp: filter_empty_conv)

lemma on_block_was [simp]: "was_assistant (fst (on_block i b st)) = was_assistant st"
  by (cases b) (simp_all add: Let_def)

lemma on_block_text_mono:
  "lens_get (text_lens st) j \<le> lens_get (text_lens (fst (on_block i b st))) j"
  by (cases b) (auto simp: Let_def lens_get_def)

lemma on_block_think_mono:
  "lens_get (think_lens st) j \<le> lens_get (think_lens (fst (on_block i b st))) j"
  by (cases b) (auto simp: Let_def lens_get_def)

lemma on_blocks_was [simp]: "was_assistant (fst (on_blocks k bs st)) = was_assistant st"
  by (induction bs arbitrary: k st) (simp_all add: Let_def)

lemma on_blocks_text_mono:
  "lens_get (text_lens st) j \<le> lens_get (text_lens (fst (on_blocks k bs st))) j"
proof (induction bs arbitrary: k st)
  case Nil
  show ?case by simp
next
  case (Cons b bs)
  have "lens_get (text_lens st) j \<le> lens_get (text_lens (fst (on_block k b st))) j"
    by (rule on_block_text_mono)
  also have "\<dots> \<le> lens_get (text_lens (fst (on_blocks (Suc k) bs (fst (on_block k b st))))) j"
    by (rule Cons.IH)
  finally show ?case by (simp add: Let_def)
qed

lemma on_blocks_think_mono:
  "lens_get (think_lens st) j \<le> lens_get (think_lens (fst (on_blocks k bs st))) j"
proof (induction bs arbitrary: k st)
  case Nil
  show ?case by simp
next
  case (Cons b bs)
  have "lens_get (think_lens st) j \<le> lens_get (think_lens (fst (on_block k b st))) j"
    by (rule on_block_think_mono)
  also have "\<dots> \<le> lens_get (think_lens (fst (on_blocks (Suc k) bs (fst (on_block k b st))))) j"
    by (rule Cons.IH)
  finally show ?case by (simp add: Let_def)
qed

lemma on_block_covers: "covered i b (fst (on_block i b st))"
  by (cases b) (auto simp: Let_def lens_get_def)

lemma on_block_seen_mono: "seen_tools st \<subseteq> seen_tools (fst (on_block i b st))"
  by (cases b) (auto simp: Let_def)

lemma on_block_keeps_covered: "covered j c st \<Longrightarrow> covered j c (fst (on_block i b st))"
  using on_block_text_mono [of st j i b] on_block_think_mono [of st j i b]
        on_block_seen_mono [of st i b]
  by (cases c) auto

lemma on_blocks_keeps_covered: "covered j c st \<Longrightarrow> covered j c (fst (on_blocks k bs st))"
  by (induction bs arbitrary: k st) (simp_all add: Let_def on_block_keeps_covered)

lemma on_block_silent: "covered i b st \<Longrightarrow> on_block i b st = (st, [])"
  by (cases b) (auto simp: Let_def)

lemma on_blocks_covers:
  "i < length bs \<Longrightarrow> covered (k + i) (bs ! i) (fst (on_blocks k bs st))"
proof (induction bs arbitrary: k i st)
  case Nil
  then show ?case by simp
next
  case (Cons b bs)
  show ?case
  proof (cases i)
    case 0
    then show ?thesis
      by (simp add: Let_def on_blocks_keeps_covered on_block_covers)
  next
    case (Suc i')
    with Cons.prems have "i' < length bs" by simp
    from Cons.IH [OF this, of "Suc k" "fst (on_block k b st)"] Suc
    show ?thesis by (simp add: Let_def)
  qed
qed

lemma on_blocks_silent_at:
  "i < length bs \<Longrightarrow> covered (k + i) (bs ! i) st
     \<Longrightarrow> filter (at_index (k + i)) (snd (on_blocks k bs st)) = []"
proof (induction bs arbitrary: k i st)
  case Nil
  then show ?case by simp
next
  case (Cons b bs)
  show ?case
  proof (cases i)
    case 0
    with Cons.prems have "on_block k b st = (st, [])"
      by (simp add: on_block_silent)
    with 0 show ?thesis by (simp add: Let_def on_blocks_below)
  next
    case (Suc i')
    with Cons.prems have i': "i' < length bs" by simp
    have c: "covered (Suc k + i') (bs ! i') (fst (on_block k b st))"
      using Cons.prems Suc by (simp add: on_block_keeps_covered)
    have "filter (at_index (k + i)) (snd (on_block k b st)) = []"
      using on_block_labels [of _ k b st "k + i"] Suc by (auto simp: filter_empty_conv)
    with Cons.IH [OF i' c] Suc show ?thesis by (simp add: Let_def)
  qed
qed

lemma on_assistant_was [simp]: "was_assistant (fst (on_assistant bs st))"
  by (simp add: on_assistant_def Let_def)

lemma was_assistant_already: "was_assistant st \<Longrightarrow> st\<lparr>was_assistant := True\<rparr> = st"
  by (cases st) simp

lemma on_assistant_running:
  "was_assistant st \<Longrightarrow> on_assistant bs st = on_blocks 0 bs st"
  by (simp add: on_assistant_def was_assistant_already)

lemma on_assistant_covers:
  "i < length bs \<Longrightarrow> covered i (bs ! i) (fst (on_assistant bs st))"
  using on_blocks_covers [of i bs 0] by (simp add: on_assistant_def Let_def)

lemma same_block_twice_silent:
  assumes "i < length m1" "i < length m2" "m2 ! i = m1 ! i"
  shows "filter (at_index i) (snd (on_assistant m2 (fst (on_assistant m1 st)))) = []"
proof -
  let ?st1 = "fst (on_assistant m1 st)"
  have "covered (0 + i) (m2 ! i) ?st1"
    using assms on_assistant_covers [of i m1 st] by simp
  from on_blocks_silent_at [OF assms(2) this] show ?thesis
    by (simp add: on_assistant_running)
qed

lemma assistant_run_text_mono:
  "was_assistant st \<Longrightarrow>
     lens_get (text_lens st) j \<le> lens_get (text_lens (fst (assistant_run ms st))) j"
proof (induction ms arbitrary: st)
  case Nil
  show ?case by simp
next
  case (Cons m ms)
  have "lens_get (text_lens st) j \<le> lens_get (text_lens (fst (on_assistant m st))) j"
    using Cons.prems by (simp add: on_assistant_running on_blocks_text_mono)
  also have "\<dots> \<le> lens_get (text_lens (fst (assistant_run ms (fst (on_assistant m st))))) j"
    by (rule Cons.IH) simp
  finally show ?case by (simp add: Let_def)
qed

lemma assistant_run_think_mono:
  "was_assistant st \<Longrightarrow>
     lens_get (think_lens st) j \<le> lens_get (think_lens (fst (assistant_run ms st))) j"
proof (induction ms arbitrary: st)
  case Nil
  show ?case by simp
next
  case (Cons m ms)
  have "lens_get (think_lens st) j \<le> lens_get (think_lens (fst (on_assistant m st))) j"
    using Cons.prems by (simp add: on_assistant_running on_blocks_think_mono)
  also have "\<dots> \<le> lens_get (think_lens (fst (assistant_run ms (fst (on_assistant m st))))) j"
    by (rule Cons.IH) simp
  finally show ?case by (simp add: Let_def)
qed

lemma consume_assistant_run:
  "consume st (map (\<lambda>bs. Yield (AssistantMessage bs)) ms @ rest)
     = snd (assistant_run ms st) @ consume (fst (assistant_run ms st)) rest"
  by (induction ms arbitrary: st) (simp_all add: Let_def)


text \<open>
  C5: the suffix diff is idempotent. When two assistant messages in a row carry the same
  text block (or the same thinking block) at an index, the second message makes no write
  at that index; one round of the block loop, run again on the state it left, writes
  nothing and leaves the state as it is, while the first round writes exactly the unseen
  suffix when there is one. Within a run of consecutive assistant messages the number of
  characters tracked for a block never decreases; the tracking is cleared only by the
  first assistant message after a message of another kind, which starts a new run.
\<close>

theorem suffix_diff_idempotent:
  "(i < length m1 \<and> i < length m2 \<and> m1 ! i = TextBlock t \<and> m2 ! i = TextBlock t
      \<longrightarrow> filter (at_index i) (snd (on_assistant m2 (fst (on_assistant m1 st)))) = [])
   \<and> (i < length m1 \<and> i < length m2 \<and> m1 ! i = ThinkingBlock t \<and> m2 ! i = ThinkingBlock t
      \<longrightarrow> filter (at_index i) (snd (on_assistant m2 (fst (on_assistant m1 st)))) = [])
   \<and> on_block i (TextBlock t) (fst (on_block i (TextBlock t) st))
        = (fst (on_block i (TextBlock t) st), [])
   \<and> on_block i (ThinkingBlock t) (fst (on_block i (ThinkingBlock t) st))
        = (fst (on_block i (ThinkingBlock t) st), [])
   \<and> (lens_get (text_lens st) i < length t
      \<longrightarrow> snd (on_block i (TextBlock t) st)
            = [Delta i (delta [(''content'', JStr (drop (lens_get (text_lens st) i) t))])])
   \<and> (lens_get (think_lens st) i < length t
      \<longrightarrow> snd (on_block i (ThinkingBlock t) st)
            = [Delta i (delta [(''reasoning'', JStr (drop (lens_get (think_lens st) i) t))])])
   \<and> (was_assistant st
      \<longrightarrow> lens_get (text_lens st) j \<le> lens_get (text_lens (fst (assistant_run ms st))) j
          \<and> lens_get (think_lens st) j \<le> lens_get (think_lens (fst (assistant_run ms st))) j)"
proof (intro conjI impI)
  assume "i < length m1 \<and> i < length m2 \<and> m1 ! i = TextBlock t \<and> m2 ! i = TextBlock t"
  then show "filter (at_index i) (snd (on_assistant m2 (fst (on_assistant m1 st)))) = []"
    by (simp add: same_block_twice_silent)
next
  assume "i < length m1 \<and> i < length m2 \<and> m1 ! i = ThinkingBlock t \<and> m2 ! i = ThinkingBlock t"
  then show "filter (at_index i) (snd (on_assistant m2 (fst (on_assistant m1 st)))) = []"
    by (simp add: same_block_twice_silent)
next
  show "on_block i (TextBlock t) (fst (on_block i (TextBlock t) st))
          = (fst (on_block i (TextBlock t) st), [])"
    by (rule on_block_silent) (rule on_block_covers)
next
  show "on_block i (ThinkingBlock t) (fst (on_block i (ThinkingBlock t) st))
          = (fst (on_block i (ThinkingBlock t) st), [])"
    by (rule on_block_silent) (rule on_block_covers)
next
  assume "lens_get (text_lens st) i < length t"
  then show "snd (on_block i (TextBlock t) st)
            = [Delta i (delta [(''content'', JStr (drop (lens_get (text_lens st) i) t))])]"
    by (simp add: Let_def)
next
  assume "lens_get (think_lens st) i < length t"
  then show "snd (on_block i (ThinkingBlock t) st)
            = [Delta i (delta [(''reasoning'', JStr (drop (lens_get (think_lens st) i) t))])]"
    by (simp add: Let_def)
next
  assume "was_assistant st"
  then show "lens_get (text_lens st) j \<le> lens_get (text_lens (fst (assistant_run ms st))) j"
    by (rule assistant_run_text_mono)
next
  assume "was_assistant st"
  then show "lens_get (think_lens st) j \<le> lens_get (think_lens (fst (assistant_run ms st))) j"
    by (rule assistant_run_think_mono)
qed

theorem suffix_diff_idempotent_witness:
  "snd (on_assistant [ThinkingBlock ''hm'', TextBlock ''hello'']
          (fst (on_assistant [ThinkingBlock ''hm'', TextBlock ''hello''] initial_tracking))) = []
   \<and> snd (on_assistant [ThinkingBlock ''hm'', TextBlock ''hello''] initial_tracking)
       = [Delta 0 (delta [(''reasoning'', JStr ''hm'')]), Delta 1 (delta [(''content'', JStr ''hello'')])]
   \<and> lens_get (text_lens (fst (on_assistant [ThinkingBlock ''hm'', TextBlock ''hello''] initial_tracking))) 1
       \<le> lens_get (text_lens (fst (assistant_run [[ThinkingBlock ''hm'', TextBlock ''hello, you'']]
            (fst (on_assistant [ThinkingBlock ''hm'', TextBlock ''hello''] initial_tracking))))) 1"
  using suffix_diff_idempotent
          [of 1 "[ThinkingBlock ''hm'', TextBlock ''hello'']" "[ThinkingBlock ''hm'', TextBlock ''hello'']"
              "''hello''" initial_tracking
              1 "[[ThinkingBlock ''hm'', TextBlock ''hello, you'']]"]
        suffix_diff_idempotent
          [of 1 "[ThinkingBlock ''hm'', TextBlock ''hello'']" "[ThinkingBlock ''hm'', TextBlock ''hello'']"
              "''hello''" "fst (on_assistant [ThinkingBlock ''hm'', TextBlock ''hello''] initial_tracking)"
              1 "[[ThinkingBlock ''hm'', TextBlock ''hello, you'']]"]
  by (simp add: on_assistant_def initial_tracking_def lens_get_def Let_def)

lemma tool_at_Cons_0:
  "tool_at 0 (b # bs) = (case b of ToolUseBlock tid name inp \<Rightarrow> Some (tid, name, inp) | _ \<Rightarrow> None)"
  by (simp add: tool_at_def)

lemma tool_at_Cons_Suc: "tool_at (Suc i) (b # bs) = tool_at i bs"
  by (simp add: tool_at_def)

lemma tool_delta_at_tool [simp]: "tool_delta_at j (tool_delta k t) = (j = k)"
  by (simp add: tool_delta_at_def tool_delta_def)

lemma on_block_tool_deltas:
  "filter (tool_delta_at j) (snd (on_block k b st))
     = (if j = k \<and> k \<notin> seen_tools st
        then (case tool_at 0 [b] of None \<Rightarrow> [] | Some t \<Rightarrow> [tool_delta k t])
        else [])"
  by (cases b) (auto simp: Let_def tool_at_def tool_delta_at_def tool_delta_def)

lemma on_block_seen:
  "seen_tools (fst (on_block k b st))
     = seen_tools st \<union> (case tool_at 0 [b] of None \<Rightarrow> {} | Some t \<Rightarrow> {k})"
  by (cases b) (auto simp: Let_def tool_at_def)

lemma on_blocks_seen:
  "j \<in> seen_tools (fst (on_blocks k bs st))
     \<longleftrightarrow> j \<in> seen_tools st \<or> (k \<le> j \<and> tool_at (j - k) bs \<noteq> None)"
proof (induction bs arbitrary: k st)
  case Nil
  show ?case by (simp add: tool_at_def)
next
  case (Cons b bs)
  consider "j < k" | "j = k" | "k < j" by linarith
  then show ?case
  proof cases
    case 1
    then show ?thesis
      by (auto simp: Let_def Cons.IH on_block_seen split: option.splits)
  next
    case 2
    with Cons.IH [of "Suc k" "fst (on_block k b st)"] show ?thesis
      by (cases b) (auto simp: Let_def tool_at_def)
  next
    case 3
    then have "j - k = Suc (j - Suc k)" by simp
    then have "tool_at (j - k) (b # bs) = tool_at (j - Suc k) bs"
      by (simp add: tool_at_Cons_Suc)
    with 3 show ?thesis
      by (auto simp: Let_def Cons.IH on_block_seen split: option.splits)
  qed
qed

lemma on_blocks_tool_deltas:
  "filter (tool_delta_at j) (snd (on_blocks k bs st))
     = (if j \<in> seen_tools st \<or> j < k then []
        else (case tool_at (j - k) bs of None \<Rightarrow> [] | Some t \<Rightarrow> [tool_delta j t]))"
proof (induction bs arbitrary: k st)
  case Nil
  show ?case by (simp add: tool_at_def)
next
  case (Cons b bs)
  consider "j < k" | "j = k" | "k < j" by linarith
  then show ?case
  proof cases
    case 1
    then show ?thesis
      by (simp add: Let_def Cons.IH on_block_tool_deltas)
  next
    case 2
    with Cons.IH [of "Suc k" "fst (on_block k b st)"] show ?thesis
      by (cases b) (auto simp: Let_def tool_at_def tool_delta_def tool_delta_at_def)
  next
    case 3
    then have "j - k = Suc (j - Suc k)" by simp
    then have "tool_at (j - k) (b # bs) = tool_at (j - Suc k) bs"
      by (simp add: tool_at_Cons_Suc)
    with 3 show ?thesis
      by (auto simp: Let_def Cons.IH on_block_tool_deltas on_block_seen split: option.splits)
  qed
qed

lemma assistant_run_tool_deltas:
  "was_assistant st \<Longrightarrow>
     filter (tool_delta_at j) (snd (assistant_run ms st))
       = (if j \<in> seen_tools st then []
          else (case first_tool_at j ms of None \<Rightarrow> [] | Some t \<Rightarrow> [tool_delta j t]))"
proof (induction ms arbitrary: st)
  case Nil
  show ?case by simp
next
  case (Cons m ms)
  have run: "on_assistant m st = on_blocks 0 m st"
    using Cons.prems by (rule on_assistant_running)
  have was: "was_assistant (fst (on_blocks 0 m st))"
    using Cons.prems by simp
  show ?case
    using on_blocks_seen [of j 0 m st]
    by (auto simp: Let_def run Cons.IH [OF was] on_blocks_tool_deltas split: option.splits)
qed

lemma on_assistant_reset:
  "\<not> was_assistant st \<Longrightarrow>
     on_assistant m st
       = on_assistant m (st\<lparr>text_lens := Map.empty, think_lens := Map.empty, seen_tools := {},
                             was_assistant := True\<rparr>)"
  by (simp add: on_assistant_def)

text \<open>
  C8: in a run of consecutive assistant messages that starts with the tracking reset, an
  index at which a tool block occurs gets exactly one tool-call delta. The delta carries
  the name of the tool block first seen at that index and its arguments as text: the JSON
  encoding when the input is a dict, its \<open>str()\<close> text otherwise.
\<close>

theorem tool_call_once_per_index:
  assumes "\<not> was_assistant st"
    and "first_tool_at i ms = Some (tid, name, inp)"
  shows "filter (tool_delta_at i) (snd (assistant_run ms st))
           = [Delta i (delta [(''tool_calls'', JArr [tool_call tid name inp])])]
         \<and> obj_field (tool_call tid name inp) ''function''
           = Some (JObj [(''name'', JStr name),
                         (''arguments'',
                          JStr (case inp of DictInput d \<Rightarrow> json_dumps True (JObj d)
                                          | OtherInput s \<Rightarrow> s))])"
proof -
  let ?st0 = "st\<lparr>text_lens := Map.empty, think_lens := Map.empty, seen_tools := {},
                  was_assistant := True\<rparr>"
  from assms(2) obtain m rest where ms: "ms = m # rest"
    by (cases ms) simp_all
  have "assistant_run ms st = assistant_run ms ?st0"
    using assms(1) by (simp add: ms on_assistant_reset [of st])
  moreover have "filter (tool_delta_at i) (snd (assistant_run ms ?st0))
                   = [tool_delta i (tid, name, inp)]"
    using assms(2) by (simp add: assistant_run_tool_deltas)
  ultimately show ?thesis
    by (simp add: tool_delta_def tool_call_def obj_field_def tool_arguments_def)
qed

theorem tool_call_once_per_index_witness:
  "filter (tool_delta_at 1)
     (snd (assistant_run [[TextBlock ''a''],
                          [TextBlock ''ab'', ToolUseBlock ''t1'' ''tasks'' (DictInput [(''n'', JInt 3)])],
                          [TextBlock ''ab'', ToolUseBlock ''t1'' ''tasks'' (DictInput [(''n'', JInt 3)])]]
             initial_tracking))
   = [Delta 1 (delta [(''tool_calls'', JArr [tool_call ''t1'' ''tasks'' (DictInput [(''n'', JInt 3)])])])]"
  using tool_call_once_per_index
          [of initial_tracking 1
              "[[TextBlock ''a''],
                [TextBlock ''ab'', ToolUseBlock ''t1'' ''tasks'' (DictInput [(''n'', JInt 3)])],
                [TextBlock ''ab'', ToolUseBlock ''t1'' ''tasks'' (DictInput [(''n'', JInt 3)])]]"
              "''t1''" "''tasks''" "DictInput [(''n'', JInt 3)]"]
  by (simp add: initial_tracking_def tool_at_def)

lemma index_zero_on_block: "list_all index_zero (snd (on_block i b st))"
  by (cases b) (simp_all add: Let_def index_zero_def tool_call_def obj_field_def)

lemma index_zero_on_blocks: "list_all index_zero (snd (on_blocks k bs st))"
  by (induction bs arbitrary: k st) (simp_all add: Let_def index_zero_on_block)

lemma index_zero_emit_done: "list_all index_zero (emit_done a b)"
  by (simp add: emit_done_def index_zero_def tool_calls_in_def obj_field_def)

lemma index_zero_consume: "list_all index_zero (consume st steps)"
  by (induction st steps rule: consume.induct)
     (simp_all add: Let_def index_zero_emit_done index_zero_on_blocks on_assistant_def,
      simp_all add: index_zero_def)

text \<open>
  C9: every tool call that \<open>main\<close> writes has the value 0 in its \<open>index\<close> field, and the
  delta written for a tool block at any index \<open>i\<close> of a message carries that value, so
  two tool blocks of one message are both announced with index 0.
\<close>

theorem tool_call_index_always_zero:
  "list_all index_zero (writes (main py_str query p))
   \<and> (i \<notin> seen_tools st \<longrightarrow>
        snd (on_block i (ToolUseBlock tid name inp) st)
          = [Delta i (delta [(''tool_calls'', JArr [tool_call tid name inp])])]
        \<and> tool_calls_in (delta [(''tool_calls'', JArr [tool_call tid name inp])])
          = [tool_call tid name inp]
        \<and> obj_field (tool_call tid name inp) ''index'' = Some (JInt 0))"
proof (intro conjI impI)
  have "list_all index_zero [Event (delta [(''content'', JStr ''Error: No user message'')])]"
    by (simp add: index_zero_def)
  then show "list_all index_zero (writes (main py_str query p))"
    by (simp add: main_def writes_def Let_def index_zero_consume index_zero_emit_done
             split: sum.splits)
qed (simp_all add: tool_call_def obj_field_def)

theorem tool_call_index_always_zero_witness:
  "map (\<lambda>w. case emitted w of None \<Rightarrow> [] | Some d \<Rightarrow> map (\<lambda>tc. obj_field tc ''index'') (tool_calls_in d))
     (writes (main (\<lambda>v. [])
        (\<lambda>prompt opts. [Yield (AssistantMessage
                               [ToolUseBlock ''t1'' ''tasks'' (DictInput []),
                                ToolUseBlock ''t2'' ''remember'' (DictInput [])])])
        (JObj [(''messages'', JArr [JObj [(''role'', JStr ''user''), (''content'', JStr ''q'')]])])))
   = [[Some (JInt 0)], [Some (JInt 0)], []]
   \<and> list_all index_zero
       (writes (main (\<lambda>v. [])
          (\<lambda>prompt opts. [Yield (AssistantMessage
                               [ToolUseBlock ''t1'' ''tasks'' (DictInput []),
                                ToolUseBlock ''t2'' ''remember'' (DictInput [])])])
          (JObj [(''messages'', JArr [JObj [(''role'', JStr ''user''), (''content'', JStr ''q'')]])])))"
  using tool_call_index_always_zero
          [of "\<lambda>v. []"
              "\<lambda>prompt opts. [Yield (AssistantMessage
                               [ToolUseBlock ''t1'' ''tasks'' (DictInput []),
                                ToolUseBlock ''t2'' ''remember'' (DictInput [])])]"
              "JObj [(''messages'', JArr [JObj [(''role'', JStr ''user''), (''content'', JStr ''q'')]])]"
              1 initial_tracking "''t2''" "''remember''" "DictInput []"]
  by (simp add: main_def writes_def resolve_model_def build_prompt_json_def dict_get_def
                on_assistant_def initial_tracking_def emit_done_def Let_def
                tool_call_def obj_field_def)

subsection \<open>The chat loop\<close>

lemma run_blocks_history:
  "run_blocks spawn loads bs results st = Inr (results', st') \<Longrightarrow> history st' = history st"
  by (induction spawn loads bs results st rule: run_blocks.induct)
     (auto simp: Let_def split: sum.splits)

lemma tool_loop_unfold:
  "tool_loop spawn loads api response st =
     (if stop_reason response = ''tool_use'' then
        (case run_blocks spawn loads (filter is_tool_use (content response)) []
                (st\<lparr>history := history st @ [Turn ''assistant'' (Blocks (content response))]\<rparr>) of
           Inl e \<Rightarrow> Some (Inl e)
         | Inr rs \<Rightarrow>
             (case api of
                [] \<Rightarrow> None
              | ApiError e # _ \<Rightarrow>
                  Some (Inr (response,
                    (snd rs)\<lparr>history := history (snd rs) @ [Turn ''user'' (ToolResults (fst rs))],
                             printed := printed (snd rs) @ [''  [ERROR] API: '' @ e]\<rparr>))
              | ApiOk response' # api' \<Rightarrow>
                  tool_loop spawn loads api' response'
                    ((snd rs)\<lparr>history := history (snd rs) @ [Turn ''user'' (ToolResults (fst rs))]\<rparr>)))
      else Some (Inr (response, st)))"
  by (subst tool_loop.simps) (simp add: Let_def split: sum.splits list.splits api_result.splits prod.splits)

lemma tool_loop_last:
  "tool_loop spawn loads api r st = Some (Inr (r', st')) \<Longrightarrow> stop_reason r' \<noteq> ''tool_use''
     \<Longrightarrow> st' = st \<or> (\<exists>rs. history st' \<noteq> [] \<and> last (history st') = Turn ''user'' (ToolResults rs))"
proof (induction spawn loads api r st rule: tool_loop.induct)
  case (1 spawn loads api response st)
  show ?case
  proof (cases "stop_reason response = ''tool_use''")
    case False
    with "1.prems" show ?thesis by (subst (asm) tool_loop_unfold) simp
  next
    case True
    let ?st1 = "st\<lparr>history := history st @ [Turn ''assistant'' (Blocks (content response))]\<rparr>"
    from "1.prems"(1) True obtain rs st2 where
      rb: "run_blocks spawn loads (filter is_tool_use (content response)) [] ?st1 = Inr (rs, st2)"
      by (subst (asm) tool_loop_unfold) (auto split: sum.splits)
    let ?st3 = "st2\<lparr>history := history st2 @ [Turn ''user'' (ToolResults rs)]\<rparr>"
    from "1.prems" True rb obtain response' api' where
      api: "api = ApiOk response' # api'" and
      rec: "tool_loop spawn loads api' response' ?st3 = Some (Inr (r', st'))"
      by (subst (asm) tool_loop_unfold) (auto split: list.splits api_result.splits)
    have "st' = ?st3 \<or> (\<exists>rs. history st' \<noteq> [] \<and> last (history st') = Turn ''user'' (ToolResults rs))"
      using "1.IH" [OF True refl refl rb refl refl api refl rec "1.prems"(2)] .
    then show ?thesis by auto
  qed
qed


lemma chat_turn_api_error:
  "chat_turn spawn loads (ApiError e # api) user_input st
     = Some (Inr (st\<lparr>printed := printed st @ [''  [ERROR] API: '' @ e]\<rparr>))"
  by (simp add: chat_turn_def Let_def)

lemma tool_loop_api_error:
  assumes "stop_reason r = ''tool_use''"
    and "run_blocks spawn loads (filter is_tool_use (content r)) []
           (st\<lparr>history := history st @ [Turn ''assistant'' (Blocks (content r))]\<rparr>)
         = Inr (results, st2)"
  shows "tool_loop spawn loads (ApiError e # api) r st
         = Some (Inr (r, st2\<lparr>history := history st @ [Turn ''assistant'' (Blocks (content r)),
                                                    Turn ''user'' (ToolResults results)],
                              printed := printed st2 @ [''  [ERROR] API: '' @ e]\<rparr>))"
proof -
  have "history st2 = history st @ [Turn ''assistant'' (Blocks (content r))]"
    using run_blocks_history [OF assms(2)] by simp
  with assms show ?thesis
    by (subst tool_loop_unfold) simp
qed

lemma demo_run_tool: "run_tool (demo_spawn n) demo_loads name args = Inr ''ok''"
  by (simp add: run_tool_def demo_spawn_def demo_loads_def output_lines_def strip_def
                py_isspace_def extract_text_def dict_get_def)

lemma demo_format: "format_tool_call ''tasks'' [] = ''  [TOOL] tasks({})''"
  by (simp add: format_tool_call_def)

text \<open>
  C6: when the first API call of a turn fails, the history after the turn is the history
  before it. When a call issued again inside the tool loop fails, the loop ends with the
  assistant turn and the tool-result turn it had appended still in the history; for a
  failure right after the first response the history of the turn is given in full.
\<close>

theorem api_failure_asymmetry:
  "(\<exists>st'. chat_turn spawn loads (ApiError e # api) user_input st = Some (Inr st')
           \<and> history st' = history st)
   \<and> (stop_reason r = ''tool_use''
        \<and> run_blocks spawn loads (filter is_tool_use (content r)) []
             (st\<lparr>history := history st @ [Turn ''assistant'' (Blocks (content r))]\<rparr>)
           = Inr (results, st2)
       \<longrightarrow> (\<exists>st'. tool_loop spawn loads (ApiError e # api) r st = Some (Inr (r, st'))
                  \<and> history st' = history st @ [Turn ''assistant'' (Blocks (content r)),
                                                  Turn ''user'' (ToolResults results)]))
   \<and> (stop_reason r = ''tool_use''
        \<and> run_blocks spawn loads (filter is_tool_use (content r)) []
             (st\<lparr>history := history st @ [Turn ''user'' (UserText user_input),
                                           Turn ''assistant'' (Blocks (content r))]\<rparr>)
           = Inr (results, st2)
       \<longrightarrow> (\<exists>st'. chat_turn spawn loads (ApiOk r # ApiError e # api) user_input st = Some (Inr st')
                  \<and> history st' = history st @ [Turn ''user'' (UserText user_input),
                                                  Turn ''assistant'' (Blocks (content r)),
                                                  Turn ''user'' (ToolResults results)]
                                    @ (if text_parts (content r) \<noteq> []
                                       then [Turn ''assistant'' (Blocks (content r))] else [])))"
proof (intro conjI impI)
  show "\<exists>st'. chat_turn spawn loads (ApiError e # api) user_input st = Some (Inr st')
           \<and> history st' = history st"
    by (simp add: chat_turn_api_error)
next
  assume "stop_reason r = ''tool_use''
        \<and> run_blocks spawn loads (filter is_tool_use (content r)) []
             (st\<lparr>history := history st @ [Turn ''assistant'' (Blocks (content r))]\<rparr>)
           = Inr (results, st2)"
  then show "\<exists>st'. tool_loop spawn loads (ApiError e # api) r st = Some (Inr (r, st'))
                  \<and> history st' = history st @ [Turn ''assistant'' (Blocks (content r)),
                                                  Turn ''user'' (ToolResults results)]"
    using tool_loop_api_error [of r spawn loads st results st2 e api] by simp
next
  let ?st1 = "st\<lparr>history := history st @ [Turn ''user'' (UserText user_input)]\<rparr>"
  assume a: "stop_reason r = ''tool_use''
        \<and> run_blocks spawn loads (filter is_tool_use (content r)) []
             (st\<lparr>history := history st @ [Turn ''user'' (UserText user_input),
                                           Turn ''assistant'' (Blocks (content r))]\<rparr>)
           = Inr (results, st2)"
  then have "run_blocks spawn loads (filter is_tool_use (content r)) []
               (?st1\<lparr>history := history ?st1 @ [Turn ''assistant'' (Blocks (content r))]\<rparr>)
             = Inr (results, st2)"
    by simp
  with a have "tool_loop spawn loads (ApiError e # api) r ?st1
         = Some (Inr (r, st2\<lparr>history := history ?st1 @ [Turn ''assistant'' (Blocks (content r)),
                                                    Turn ''user'' (ToolResults results)],
                              printed := printed st2 @ [''  [ERROR] API: '' @ e]\<rparr>))"
    using tool_loop_api_error [of r spawn loads ?st1 results st2 e api] by blast
  then show "\<exists>st'. chat_turn spawn loads (ApiOk r # ApiError e # api) user_input st = Some (Inr st')
                  \<and> history st' = history st @ [Turn ''user'' (UserText user_input),
                                                  Turn ''assistant'' (Blocks (content r)),
                                                  Turn ''user'' (ToolResults results)]
                                    @ (if text_parts (content r) \<noteq> []
                                       then [Turn ''assistant'' (Blocks (content r))] else [])"
    by (simp add: chat_turn_def print_text_def Let_def)
qed

theorem api_failure_asymmetry_witness:
  "map_option (map_sum id history)
     (chat_turn demo_spawn demo_loads [ApiError ''down''] ''hi''
        \<lparr>history = [Turn ''user'' (UserText ''before'')], printed = [], spawned = 0\<rparr>)
     = Some (Inr [Turn ''user'' (UserText ''before'')])
   \<and> map_option (map_sum id history)
       (chat_turn demo_spawn demo_loads
          [ApiOk \<lparr>stop_reason = ''tool_use'', content = [CToolUse ''id1'' ''tasks'' []]\<rparr>,
           ApiError ''down''] ''hi''
          \<lparr>history = [Turn ''user'' (UserText ''before'')], printed = [], spawned = 0\<rparr>)
     = Some (Inr [Turn ''user'' (UserText ''before''),
                  Turn ''user'' (UserText ''hi''),
                  Turn ''assistant'' (Blocks [CToolUse ''id1'' ''tasks'' []]),
                  Turn ''user'' (ToolResults [\<lparr>tool_use_id = ''id1'', result_text = ''ok''\<rparr>])])"
  using api_failure_asymmetry
          [of demo_spawn demo_loads "''down''" "[]" "''hi''"
              "\<lparr>history = [Turn ''user'' (UserText ''before'')], printed = [], spawned = 0\<rparr>"
              "\<lparr>stop_reason = ''tool_use'', content = [CToolUse ''id1'' ''tasks'' []]\<rparr>"
              "[\<lparr>tool_use_id = ''id1'', result_text = ''ok''\<rparr>]"
              "\<lparr>history = [Turn ''user'' (UserText ''before''), Turn ''user'' (UserText ''hi''),
                           Turn ''assistant'' (Blocks [CToolUse ''id1'' ''tasks'' []])],
                printed = [''  [TOOL] tasks({})''], spawned = 1\<rparr>"]
  by (auto simp: is_tool_use_def demo_run_tool demo_format Let_def)

text \<open>
  C10: when the response that ends the tool loop does not ask for a tool and has no text
  block, the turn ends in the state the loop was in when that response came: nothing
  more is printed, no assistant turn is appended, and the history ends with the turn
  appended before the call, the user's line or the tool results.
\<close>

theorem silent_final_response:
  assumes "tool_loop spawn loads api r (st\<lparr>history := history st @ [Turn ''user'' (UserText user_input)]\<rparr>)
             = Some (Inr (r', st2))"
    and "stop_reason r' \<noteq> ''tool_use''"
    and "text_parts (content r') = []"
  shows "chat_turn spawn loads (ApiOk r # api) user_input st = Some (Inr st2)
         \<and> print_text r' st2 = st2
         \<and> history st2 \<noteq> []
         \<and> (last (history st2) = Turn ''user'' (UserText user_input)
              \<or> (\<exists>rs. last (history st2) = Turn ''user'' (ToolResults rs)))"
proof -
  have "print_text r' st2 = st2"
    using assms(3) by (simp add: print_text_def)
  moreover from this assms(1)
  have "chat_turn spawn loads (ApiOk r # api) user_input st = Some (Inr st2)"
    by (simp add: chat_turn_def Let_def)
  moreover have "history st2 \<noteq> [] \<and> (last (history st2) = Turn ''user'' (UserText user_input)
              \<or> (\<exists>rs. last (history st2) = Turn ''user'' (ToolResults rs)))"
    using tool_loop_last [OF assms(1) assms(2)] by auto
  ultimately show ?thesis by simp
qed


theorem silent_final_response_witness:
  "chat_turn demo_spawn demo_loads
     [ApiOk \<lparr>stop_reason = ''tool_use'', content = [CToolUse ''id1'' ''tasks'' []]\<rparr>,
      ApiOk \<lparr>stop_reason = ''end_turn'', content = [COther]\<rparr>] ''hi''
     \<lparr>history = [], printed = [], spawned = 0\<rparr>
   = Some (Inr \<lparr>history = [Turn ''user'' (UserText ''hi''),
                            Turn ''assistant'' (Blocks [CToolUse ''id1'' ''tasks'' []]),
                            Turn ''user'' (ToolResults [\<lparr>tool_use_id = ''id1'', result_text = ''ok''\<rparr>])],
                 printed = [''  [TOOL] tasks({})''], spawned = 1\<rparr>)"
  using silent_final_response
          [of demo_spawn demo_loads
              "[ApiOk \<lparr>stop_reason = ''end_turn'', content = [COther]\<rparr>]"
              "\<lparr>stop_reason = ''tool_use'', content = [CToolUse ''id1'' ''tasks'' []]\<rparr>"
              "\<lparr>history = [], printed = [], spawned = 0\<rparr>" "''hi''"
              "\<lparr>stop_reason = ''end_turn'', content = [COther]\<rparr>"
              "\<lparr>history = [Turn ''user'' (UserText ''hi''),
                            Turn ''assistant'' (Blocks [CToolUse ''id1'' ''tasks'' []]),
                            Turn ''user'' (ToolResults [\<lparr>tool_use_id = ''id1'', result_text = ''ok''\<rparr>])],
                 printed = [''  [TOOL] tasks({})''], spawned = 1\<rparr>"]
  by (simp add: is_tool_use_def demo_run_tool demo_format Let_def)

end
